theory Spec2Isabelle
  imports Complex_Main "HOL-Library.Word"
begin

unbundle bit_operations_syntax

section \<open>The Pod BLE session engine (src/windows/pod\_ble\_core.cpp)\<close>

text \<open>
  A shallow embedding of \<^verbatim>\<open>PodBLECore\<close>. The object's fields are the fields of the
  record \<open>session\<close> (the trailing underscore of the C++ member names is dropped, as
  Isabelle reserves it). Every member function is a function on that record.

  Modelling decisions, all of them visible in the definitions below:
  \<^item> Bytes are \<open>8 word\<close>; the header count and the two sample counters are assembled as
    \<open>32 word\<close> and read signed (\<open>sint\<close>, the cast to \<^verbatim>\<open>int\<close>) or unsigned
    (\<open>uint\<close>, the \<^verbatim>\<open>uint32_t\<close> variables) as the source does; the address is a
    \<open>64 word\<close>.
  \<^item> The \<^verbatim>\<open>int\<close> and \<^verbatim>\<open>int64_t\<close> counters, sizes and times are mathematical integers.
    Signed overflow is undefined in C++ and is not given a meaning here. The first
    value to leave the range of \<^verbatim>\<open>int\<close> is the estimate that sizes the buffer, for an
    announced count above 36 million fragments of 64 bytes.
  \<^item> C++ exceptions are values of \<open>pod_error\<close>, returned as \<open>Inl\<close>.
  \<^item> The steady clock is a parameter \<open>now\<close> (milliseconds) of every function that reads
    it. A detached thread that sleeps and then acts is an entry \<open>(due, task)\<close> of the
    field \<open>pending\<close>; \<open>fire_task\<close> runs it, and only once its delay has elapsed.
  \<^item> The callbacks and the transport are observed through logs: \<open>payload_log\<close> holds
    every call of \<^verbatim>\<open>on_payload_\<close> with its time, \<open>status_log\<close> every call of
    \<^verbatim>\<open>on_status_\<close>, \<open>scan_log\<close> every call of \<^verbatim>\<open>on_scan_\<close>, and \<open>command_log\<close> every buffer
    handed to the write characteristic.
  \<^item> Each member function runs atomically; the functions that join or are run by a
    particular thread take that thread as an argument. A function that joins the
    watchdog thread waits for that thread's last round; \<open>now\<close> is the time at which that
    round runs and the function goes on.
  \<^item> \<^verbatim>\<open>mktime\<close> depends on the host's time zone; it is the parameter \<open>mk\<close>.
\<close>

subsection \<open>Data\<close>

type_synonym byte = "8 word"

datatype pod_error =
    InvalidArgument     \<comment> \<open>\<^verbatim>\<open>std::invalid_argument\<close>, from \<^verbatim>\<open>std::stoul\<close>\<close>
  | OutOfRange          \<comment> \<open>\<^verbatim>\<open>std::out_of_range\<close>, from \<^verbatim>\<open>std::stoul\<close>\<close>
  | LengthError         \<comment> \<open>\<^verbatim>\<open>std::length_error\<close>, from \<^verbatim>\<open>vector::reserve\<close>\<close>
  | ResourceDeadlock    \<comment> \<open>\<^verbatim>\<open>std::system_error\<close>, from \<^verbatim>\<open>std::thread::join\<close> on itself\<close>

datatype thread_id = PlatformThread | NotifyThread | TimerThread | WatchdogThread

datatype delayed_task = ScanStopTask | FinishTask | SkipTask

record tm =
  tm_sec :: int
  tm_min :: int
  tm_hour :: int
  tm_mday :: int
  tm_mon :: int
  tm_year :: int
  tm_isdst :: int

record session =
  on_status_set :: bool
  on_scan_set :: bool
  on_payload_set :: bool
  watcher_set :: bool
  device_set :: bool
  write_char_set :: bool
  notify_char_set :: bool
  payload_buffer :: "byte list"
  received_packet_count :: int
  total_expected_packets :: int
  actual_packet_size :: int
  current_message_type :: byte
  filter_start :: int
  filter_end :: int
  is_filtering :: bool
  is_smart_peek_done :: bool
  watchdog_running :: bool
  watchdog_joinable :: bool
  last_packet_time :: int
  alive :: bool
  sleep_prevented :: bool
  pending :: "(int \<times> delayed_task) list"
  status_log :: "string list"
  scan_log :: "(string \<times> string \<times> int) list"
  payload_log :: "(int \<times> byte list) list"
  command_log :: "byte list list"

text \<open>The object after its constructor: the default member initialisers of the header.\<close>

definition PodBLECore :: session where
  "PodBLECore =
     \<lparr>on_status_set = False, on_scan_set = False, on_payload_set = False,
      watcher_set = False, device_set = False, write_char_set = False,
      notify_char_set = False,
      payload_buffer = [], received_packet_count = 0, total_expected_packets = 0,
      actual_packet_size = 0, current_message_type = 0,
      filter_start = 0, filter_end = 0, is_filtering = False,
      is_smart_peek_done = False,
      watchdog_running = False, watchdog_joinable = False, last_packet_time = 0,
      alive = True, sleep_prevented = False,
      pending = [], status_log = [], scan_log = [], payload_log = [],
      command_log = []\<rparr>"

definition SetCallbacks :: "bool \<Rightarrow> bool \<Rightarrow> bool \<Rightarrow> session \<Rightarrow> session" where
  "SetCallbacks st sc pl s = s\<lparr>on_status_set := st, on_scan_set := sc, on_payload_set := pl\<rparr>"

text \<open>The three guarded callback invocations, \<^verbatim>\<open>if (on_x_) on_x_(...)\<close>.\<close>

definition emit_status :: "string \<Rightarrow> session \<Rightarrow> session" where
  "emit_status msg s = (if on_status_set s then s\<lparr>status_log := status_log s @ [msg]\<rparr> else s)"

definition emit_payload :: "int \<Rightarrow> byte list \<Rightarrow> session \<Rightarrow> session" where
  "emit_payload now d s =
     (if on_payload_set s then s\<lparr>payload_log := payload_log s @ [(now, d)]\<rparr> else s)"

subsection \<open>Address codec\<close>

text \<open>
  \<^verbatim>\<open>ss << std::hex << std::setfill('0')\<close>, then \<^verbatim>\<open>std::setw(2)\<close> before each octet: the
  number in lower-case hexadecimal with no leading zeros, padded on the left with
  \<open>0\<close> to two characters.
\<close>

definition hex_digit :: "nat \<Rightarrow> char" where
  "hex_digit d = ''0123456789abcdef'' ! d"

fun hex_digits :: "nat \<Rightarrow> string" where
  "hex_digits n =
     (if n < 16 then [hex_digit n] else hex_digits (n div 16) @ [hex_digit (n mod 16)])"

definition setw2 :: "string \<Rightarrow> string" where
  "setw2 str = replicate (2 - length str) (CHR ''0'') @ str"

definition octet :: "64 word \<Rightarrow> nat \<Rightarrow> 64 word" where
  "octet addr i = drop_bit (i * 8) addr AND 0xFF"

text \<open>The loop \<^verbatim>\<open>for (int i = 5; i >= 0; i--)\<close> of \<^verbatim>\<open>OnAdvertisementReceived\<close>.\<close>

fun format_from :: "nat \<Rightarrow> 64 word \<Rightarrow> string" where
  "format_from 0 addr = setw2 (hex_digits (unat (octet addr 0)))"
| "format_from (Suc i) addr =
     setw2 (hex_digits (unat (octet addr (Suc i)))) @ '':'' @ format_from i addr"

definition format_address :: "64 word \<Rightarrow> string" where
  "format_address addr = format_from 5 addr"

definition to_upper :: "char \<Rightarrow> char" where
  "to_upper c =
     (let n = of_char c :: nat in if 97 \<le> n \<and> n \<le> 122 then char_of (n - 32) else c)"

definition OnAdvertisementReceived :: "string \<Rightarrow> 64 word \<Rightarrow> int \<Rightarrow> session \<Rightarrow> session" where
  "OnAdvertisementReceived localName addr rssi s =
     (if take 3 (map to_upper localName) \<noteq> ''POD'' then s
      else if on_scan_set s
        then s\<lparr>scan_log := scan_log s @ [(localName, format_address addr, rssi)]\<rparr>
        else s)"

text \<open>
  \<^verbatim>\<open>std::stoul(str, nullptr, 16)\<close>, that is \<^verbatim>\<open>strtoul\<close> in base 16: leading white space
  is skipped, one sign is accepted, then an optional \<^verbatim>\<open>0x\<close> or \<^verbatim>\<open>0X\<close> when a
  hexadecimal digit follows it, then the longest run of hexadecimal digits; whatever
  follows is ignored. No digit at all is \<^verbatim>\<open>std::invalid_argument\<close>; a value above
  \<^verbatim>\<open>ULONG_MAX\<close> is \<^verbatim>\<open>std::out_of_range\<close>. On Windows \<^verbatim>\<open>unsigned long\<close> has 32 bits. A
  minus sign negates the value in that type.
\<close>

definition is_space :: "char \<Rightarrow> bool" where
  "is_space c = (c \<in> set [CHR 0x20, CHR 0x09, CHR 0x0A, CHR 0x0B, CHR 0x0C, CHR 0x0D])"

definition hex_value :: "char \<Rightarrow> int option" where
  "hex_value c =
     (let n = of_char c :: int in
      if 48 \<le> n \<and> n \<le> 57 then Some (n - 48)
      else if 97 \<le> n \<and> n \<le> 102 then Some (n - 87)
      else if 65 \<le> n \<and> n \<le> 70 then Some (n - 55)
      else None)"

definition is_xdigit :: "char \<Rightarrow> bool" where
  "is_xdigit c = (hex_value c \<noteq> None)"

definition digits_value :: "string \<Rightarrow> int" where
  "digits_value ds = foldl (\<lambda>acc c. acc * 16 + the (hex_value c)) 0 ds"

definition strip_sign :: "string \<Rightarrow> bool \<times> string" where
  "strip_sign str =
     (case str of
        c # rest \<Rightarrow>
          if c = CHR ''-'' then (True, rest)
          else if c = CHR ''+'' then (False, rest)
          else (False, str)
      | [] \<Rightarrow> (False, str))"

definition strip_0x :: "string \<Rightarrow> string" where
  "strip_0x str =
     (case str of
        c0 # c1 # c2 # rest \<Rightarrow>
          if c0 = CHR ''0'' \<and> (c1 = CHR ''x'' \<or> c1 = CHR ''X'') \<and> is_xdigit c2
          then c2 # rest else str
      | _ \<Rightarrow> str)"

definition stoul16 :: "string \<Rightarrow> pod_error + 32 word" where
  "stoul16 str =
     (let (neg, body) = strip_sign (dropWhile is_space str);
          ds = takeWhile is_xdigit (strip_0x body);
          v = digits_value ds
      in if ds = [] then Inl InvalidArgument
         else if 2 ^ 32 \<le> v then Inl OutOfRange
         else Inr (if neg then - word_of_int v else word_of_int v))"

text \<open>
  \<^verbatim>\<open>while (std::getline(ss, byte_str, ':'))\<close>: the tokens between colons. A trailing
  colon ends the last token and adds none; the empty string has no token.
\<close>

function split_colon :: "string \<Rightarrow> string list" where
  "split_colon [] = []"
| "split_colon (c # cs) =
     (let tok = takeWhile (\<lambda>x. x \<noteq> CHR '':'') (c # cs);
          rest = dropWhile (\<lambda>x. x \<noteq> CHR '':'') (c # cs)
      in case rest of [] \<Rightarrow> [tok] | _ # after \<Rightarrow> tok # split_colon after)"
  by pat_completeness auto
termination
proof (relation "measure length")
  show "wf (measure length)" by simp
next
  fix c :: char and cs :: string and rest x21 x22
  assume "rest = dropWhile (\<lambda>x. x \<noteq> CHR '':'') (c # cs)" and "rest = x21 # x22"
  then have "length (x21 # x22) \<le> length (c # cs)"
    by (metis length_dropWhile_le)
  then show "(x22, c # cs) \<in> measure length" by simp
qed

text \<open>The loop body, \<^verbatim>\<open>addr = (addr << 8) | std::stoul(byte_str, nullptr, 16)\<close>.\<close>

fun parse_tokens :: "64 word \<Rightarrow> string list \<Rightarrow> pod_error + 64 word" where
  "parse_tokens addr [] = Inr addr"
| "parse_tokens addr (byte_str # toks) =
     (case stoul16 byte_str of
        Inl e \<Rightarrow> Inl e
      | Inr v \<Rightarrow> parse_tokens (push_bit 8 addr OR ucast v) toks)"

definition parse_address :: "string \<Rightarrow> pod_error + 64 word" where
  "parse_address deviceAddress = parse_tokens 0 (split_colon deviceAddress)"

text \<open>
  \<^verbatim>\<open>Connect\<close> up to the call of \<^verbatim>\<open>ConnectAsync\<close>: the session after \<^verbatim>\<open>StopScan\<close> and the
  status report, and either the exception that leaves \<^verbatim>\<open>Connect\<close> or the address handed
  to \<^verbatim>\<open>ConnectAsync\<close>.
\<close>

definition StopScan :: "session \<Rightarrow> session" where
  "StopScan s = (if watcher_set s then s\<lparr>watcher_set := False\<rparr> else s)"

definition Connect :: "string \<Rightarrow> session \<Rightarrow> session \<times> (pod_error + 64 word)" where
  "Connect deviceAddress s =
     (let s1 = emit_status ''Connecting...'' (StopScan s)
      in (s1, parse_address deviceAddress))"

subsection \<open>Watchdog thread handle, reset, write\<close>

text \<open>
  The two tests of the watchdog loop (source lines 377 and 383 to 386) at time \<open>now\<close>:
  a message is open and either more than 60 s have passed since the last fragment, or
  more than 2.5 s with more than 98 percent of the fragments received. The progress
  quotient is a \<^verbatim>\<open>double\<close> in the source and a real number here: for two 32-bit counts
  the rounded quotient exceeds the \<^verbatim>\<open>double\<close> nearest to 0.98 exactly when the true one
  exceeds 0.98, since two such quotients on either side of 0.98 differ by more than
  \<open>10^-11\<close>.
\<close>

definition watchdog_stalled :: "int \<Rightarrow> session \<Rightarrow> bool" where
  "watchdog_stalled now s =
     (let elapsed = now - last_packet_time s
      in (0 < total_expected_packets s \<and> 60000 < elapsed) \<or>
         (0 < total_expected_packets s \<and> 2500 < elapsed \<and>
          (let progress = real_of_int (received_packet_count s) /
                          real_of_int (total_expected_packets s)
           in 0.98 < progress)))"

text \<open>
  \<^verbatim>\<open>StopWatchdog\<close> clears the flag and joins the watchdog thread when it is joinable.
  \<^verbatim>\<open>std::thread::join\<close> called by the thread itself throws \<^verbatim>\<open>std::system_error\<close>
  (\<^verbatim>\<open>resource_deadlock_would_occur\<close>). Called by another thread it waits for the
  watchdog thread to end. That thread tests the flag at the top of its loop only (line
  364): it is inside its one-second sleep, and when the sleep is over, at time \<open>now\<close>, it
  runs its two tests once more, on the session as the caller of \<^verbatim>\<open>StopWatchdog\<close> has left
  it. When neither test holds, the thread returns to the top of the loop, finds the flag
  cleared and ends, and \<^verbatim>\<open>join\<close> returns. When one holds, the thread calls
  \<^verbatim>\<open>FinishMessage\<close>, whose own \<^verbatim>\<open>StopWatchdog\<close> joins the thread from itself: the exception
  is not caught in the thread, the process is terminated, and the call of
  \<^verbatim>\<open>StopWatchdog\<close> never returns. That end is the value \<open>Inl ResourceDeadlock\<close> here too.
  Lemma \<open>last_round\<close> below shows that this is what a round of the loop, \<open>watchdog_poll\<close>,
  does with a joinable thread.
\<close>

definition StopWatchdog :: "thread_id \<Rightarrow> int \<Rightarrow> session \<Rightarrow> pod_error + session" where
  "StopWatchdog caller now s =
     (let s1 = s\<lparr>watchdog_running := False\<rparr>
      in if watchdog_joinable s1
         then (if caller = WatchdogThread then Inl ResourceDeadlock
               else if watchdog_stalled now s1 then Inl ResourceDeadlock
               else Inr (s1\<lparr>watchdog_joinable := False\<rparr>))
         else Inr s1)"

definition StartWatchdog :: "thread_id \<Rightarrow> int \<Rightarrow> session \<Rightarrow> pod_error + session" where
  "StartWatchdog caller now s =
     (case StopWatchdog caller now s of
        Inl e \<Rightarrow> Inl e
      | Inr s1 \<Rightarrow> Inr (s1\<lparr>watchdog_running := True, watchdog_joinable := True\<rparr>))"

definition ResetDownloadState :: "session \<Rightarrow> session" where
  "ResetDownloadState s =
     s\<lparr>received_packet_count := 0, total_expected_packets := 0, actual_packet_size := 0,
       is_smart_peek_done := False, payload_buffer := []\<rparr>"

definition WriteCommand :: "byte list \<Rightarrow> session \<Rightarrow> session" where
  "WriteCommand d s =
     (if \<not> write_char_set s then s else s\<lparr>command_log := command_log s @ [d]\<rparr>)"

definition PreventSleep :: "session \<Rightarrow> session" where
  "PreventSleep s = s\<lparr>sleep_prevented := True\<rparr>"

definition AllowSleep :: "session \<Rightarrow> session" where
  "AllowSleep s = s\<lparr>sleep_prevented := False\<rparr>"

subsection \<open>Public operations\<close>

text \<open>
  \<^verbatim>\<open>Disconnect\<close> and \<^verbatim>\<open>DownloadFile\<close> are called by the plugin's method-call handler only,
  on the platform thread; \<^verbatim>\<open>CancelDownload\<close> is called there and, by \<^verbatim>\<open>PerformSmartPeek\<close>, on
  the thread that delivers notifications.
\<close>

definition Disconnect :: "int \<Rightarrow> session \<Rightarrow> pod_error + session" where
  "Disconnect now s =
     (case StopWatchdog PlatformThread now s of
        Inl e \<Rightarrow> Inl e
      | Inr s1 \<Rightarrow>
          let s2 = AllowSleep s1;
              s3 = s2\<lparr>notify_char_set := False, write_char_set := False\<rparr>;
              s4 = (if device_set s3 then s3\<lparr>device_set := False\<rparr> else s3);
              s5 = ResetDownloadState s4
          in Inr (emit_status ''Disconnected'' s5))"

text \<open>The 34-byte download command: the name up to \<open>(\<close>, trailing spaces removed.\<close>

definition clean_name :: "string \<Rightarrow> string" where
  "clean_name filename =
     rev (dropWhile (\<lambda>c. c = CHR '' '') (rev (takeWhile (\<lambda>c. c \<noteq> CHR ''('') filename)))"

definition download_command :: "string \<Rightarrow> byte list" where
  "download_command filename =
     (let cleanName = clean_name filename;
          copied = map (\<lambda>c. of_char c :: byte) (take 32 cleanName)
      in [0x06, 0x20] @ copied @ replicate (32 - length copied) 0)"

definition DownloadFile ::
  "int \<Rightarrow> string \<Rightarrow> int \<Rightarrow> int \<Rightarrow> session \<Rightarrow> pod_error + session" where
  "DownloadFile now filename start fin s =
     (case StopWatchdog PlatformThread now s of
        Inl e \<Rightarrow> Inl e
      | Inr s1 \<Rightarrow>
          let s2 = ResetDownloadState s1;
              s3 = s2\<lparr>filter_start := start, filter_end := fin,
                      is_filtering := (0 < start \<or> 0 < fin)\<rparr>;
              s4 = WriteCommand (download_command filename) s3;
              s5 = s4\<lparr>last_packet_time := now\<rparr>
          in StartWatchdog PlatformThread now s5)"

definition CancelDownload :: "thread_id \<Rightarrow> int \<Rightarrow> session \<Rightarrow> pod_error + session" where
  "CancelDownload caller now s =
     (case StopWatchdog caller now s of
        Inl e \<Rightarrow> Inl e
      | Inr s1 \<Rightarrow>
          let s2 = WriteCommand [0x08] s1;
              s3 = ResetDownloadState s2
          in Inr (s3\<lparr>pending := pending s3 @ [(now + 600, SkipTask)]\<rparr>))"

subsection \<open>Packet reassembly\<close>

definition FinishMessage :: "thread_id \<Rightarrow> int \<Rightarrow> session \<Rightarrow> pod_error + session" where
  "FinishMessage caller now s =
     (case StopWatchdog caller now s of
        Inl e \<Rightarrow> Inl e
      | Inr s1 \<Rightarrow>
          let moved = payload_buffer s1;
              s2 = s1\<lparr>payload_buffer := []\<rparr>;
              s3 = emit_payload now moved s2
          in Inr (s3\<lparr>received_packet_count := 0, total_expected_packets := 0,
                      payload_buffer := []\<rparr>))"

text \<open>A little-endian 32-bit field, \<^verbatim>\<open>b[i] | (b[i+1] << 8) | (b[i+2] << 16) | (b[i+3] << 24)\<close>.\<close>

definition read_le32 :: "byte list \<Rightarrow> nat \<Rightarrow> 32 word" where
  "read_le32 b i =
     ucast (b ! i) OR push_bit 8 (ucast (b ! (i + 1))) OR push_bit 16 (ucast (b ! (i + 2)))
       OR push_bit 24 (ucast (b ! (i + 3)))"

text \<open>C++ integer division truncates towards zero.\<close>

definition tdiv :: "int \<Rightarrow> int \<Rightarrow> int" where
  "tdiv a b = sgn a * sgn b * (\<bar>a\<bar> div \<bar>b\<bar>)"

definition INT64_MAX :: int where
  "INT64_MAX = 9223372036854775807"

definition targets :: "int list" where
  "targets = [100, 200, 300, 400, 500, 600, 700, 800, 900, 1000]"

text \<open>The loop of \<^verbatim>\<open>SnapToStandardInterval\<close> over the state \<open>(closest, minDiff)\<close>.\<close>

fun snap_loop :: "int \<Rightarrow> int list \<Rightarrow> int \<times> int \<Rightarrow> int \<times> int" where
  "snap_loop raw [] (closest, minDiff) = (closest, minDiff)"
| "snap_loop raw (t # ts) (closest, minDiff) =
     (let d = \<bar>raw - t\<bar>
      in if d < minDiff then snap_loop raw ts (t, d) else snap_loop raw ts (closest, minDiff))"

definition SnapToStandardInterval :: "int \<Rightarrow> int" where
  "SnapToStandardInterval raw = fst (snap_loop raw targets (1000, INT64_MAX))"

text \<open>
  \<^verbatim>\<open>PerformSmartPeek\<close>, in the order of the source: the start time from the date at
  buffer offsets 5 to 11, the duration from the two counters at offsets 1 and 65,
  then the test that decides the cancellation.
\<close>

definition peek_start_ms :: "(tm \<Rightarrow> int) \<Rightarrow> session \<Rightarrow> int" where
  "peek_start_ms mk s =
     (let b = payload_buffer s;
          yr = (ucast (b ! 5) OR push_bit 8 (ucast (b ! 6))) :: 16 word;
          mon = b ! 7; day = b ! 8; hr = b ! 9; mn = b ! 10; sec = b ! 11;
          tm_val = \<lparr>tm_sec = uint sec, tm_min = uint mn, tm_hour = uint hr,
                    tm_mday = uint day, tm_mon = uint mon - 1, tm_year = uint yr - 1900,
                    tm_isdst = 0\<rparr>
      in mk tm_val * 1000)"

definition peek_duration :: "session \<Rightarrow> int" where
  "peek_duration s =
     (let b = payload_buffer s;
          t1 = read_le32 b 1;
          t2 = read_le32 b 65;
          interval = SnapToStandardInterval (uint (t2 - t1));
          ppp = max (actual_packet_size s - 5) 59
      in tdiv (total_expected_packets s * ppp) 64 * interval)"

definition peek_verdict :: "(tm \<Rightarrow> int) \<Rightarrow> session \<Rightarrow> bool" where
  "peek_verdict mk s =
     (let startTimeMs = peek_start_ms mk s; dur = peek_duration s
      in (0 < filter_end s \<and> filter_end s < startTimeMs) \<or>
         (0 < filter_start s \<and> startTimeMs + dur < filter_start s))"

definition PerformSmartPeek :: "(tm \<Rightarrow> int) \<Rightarrow> int \<Rightarrow> session \<Rightarrow> pod_error + session" where
  "PerformSmartPeek mk now s =
     (if length (payload_buffer s) < 129 then Inr s
      else if peek_verdict mk s then CancelDownload NotifyThread now s
      else Inr s)"

text \<open>
  \<^verbatim>\<open>ProcessPacket\<close> after the fragment is stored: the Smart Peek block and the completion
  check, which starts the detached thread that calls \<^verbatim>\<open>FinishMessage\<close> 50 ms later.
\<close>

definition smart_peek_due :: "session \<Rightarrow> bool" where
  "smart_peek_due s =
     (is_filtering s \<and> current_message_type s = 0x03 \<and> \<not> is_smart_peek_done s \<and>
      129 \<le> length (payload_buffer s))"

definition smart_peek_block :: "(tm \<Rightarrow> int) \<Rightarrow> int \<Rightarrow> session \<Rightarrow> pod_error + session" where
  "smart_peek_block mk now s =
     (if smart_peek_due s
      then (case PerformSmartPeek mk now s of
              Inl e \<Rightarrow> Inl e
            | Inr s1 \<Rightarrow> Inr (s1\<lparr>is_smart_peek_done := True\<rparr>))
      else Inr s)"

definition completion_check :: "int \<Rightarrow> session \<Rightarrow> session" where
  "completion_check now s =
     (if 0 < total_expected_packets s \<and> total_expected_packets s \<le> received_packet_count s
      then s\<lparr>pending := pending s @ [(now + 50, FinishTask)]\<rparr>
      else s)"

definition ProcessPacket_tail :: "(tm \<Rightarrow> int) \<Rightarrow> int \<Rightarrow> session \<Rightarrow> pod_error + session" where
  "ProcessPacket_tail mk now s =
     (case smart_peek_block mk now s of
        Inl e \<Rightarrow> Inl e
      | Inr s2 \<Rightarrow> Inr (completion_check now s2))"

text \<open>
  \<^verbatim>\<open>ProcessPacket\<close>. \<^verbatim>\<open>reserve\<close> changes no content; given a negative \<^verbatim>\<open>int\<close>, converted
  to \<^verbatim>\<open>size_t\<close>, it throws \<^verbatim>\<open>std::length_error\<close>. The estimate is computed here on
  mathematical integers. In the source it is an \<^verbatim>\<open>int\<close> of 32 bits: the two agree as long
  as the estimate stays in the range of \<^verbatim>\<open>int\<close>, which it does for every announced count
  from 0 to 36 million with fragments of at most 64 bytes; beyond that the source's multiplication
  overflows, which C++ leaves undefined, and this definition does not describe it.
\<close>

definition ProcessPacket :: "(tm \<Rightarrow> int) \<Rightarrow> int \<Rightarrow> byte list \<Rightarrow> session \<Rightarrow> pod_error + session" where
  "ProcessPacket mk now packet s =
     (if length packet < 5 then Inr s
      else
        let s1 = (if actual_packet_size s = 0
                  then s\<lparr>actual_packet_size := int (length packet)\<rparr> else s)
        in if received_packet_count s1 = 0 then
             (if length packet < 9 then Inr s1
              else
                let s2 = s1\<lparr>current_message_type := packet ! 0,
                            total_expected_packets := sint (read_le32 packet 5)\<rparr>;
                    safeSize = max (actual_packet_size s2) 64;
                    estimatedSize = total_expected_packets s2 * (safeSize - 5) + 2048;
                    s3 = s2\<lparr>payload_buffer := []\<rparr>
                in if estimatedSize < 0 then Inl LengthError
                   else
                     let s4 = s3\<lparr>payload_buffer := payload_buffer s3 @ [current_message_type s3]\<rparr>;
                         s5 = (if 9 < length packet
                               then s4\<lparr>payload_buffer := payload_buffer s4 @ drop 9 packet\<rparr>
                               else s4)
                     in ProcessPacket_tail mk now (s5\<lparr>received_packet_count := 1\<rparr>))
           else
             let s2 = (if 5 < length packet
                       then s1\<lparr>payload_buffer := payload_buffer s1 @ drop 5 packet\<rparr>
                       else s1)
             in ProcessPacket_tail mk now
                  (s2\<lparr>received_packet_count := received_packet_count s2 + 1\<rparr>))"

text \<open>The \<^verbatim>\<open>ValueChanged\<close> handler installed by \<^verbatim>\<open>ConnectAsync\<close>.\<close>

definition OnValueChanged :: "(tm \<Rightarrow> int) \<Rightarrow> int \<Rightarrow> byte list \<Rightarrow> session \<Rightarrow> pod_error + session" where
  "OnValueChanged mk now d s =
     (let s1 = s\<lparr>last_packet_time := now\<rparr>
      in if 0 < total_expected_packets s1 \<or> received_packet_count s1 = 0
         then ProcessPacket mk now d s1
         else Inr (emit_payload now d s1))"

subsection \<open>Delayed tasks, watchdog, destructor\<close>

text \<open>What each detached thread does when its sleep is over.\<close>

fun run_task :: "int \<Rightarrow> delayed_task \<Rightarrow> session \<Rightarrow> pod_error + session" where
  "run_task now ScanStopTask s = Inr (if alive s then StopScan s else s)"
| "run_task now FinishTask s = (if alive s then FinishMessage TimerThread now s else Inr s)"
| "run_task now SkipTask s =
     Inr (if alive s \<and> on_payload_set s then emit_payload now [0xDA] s else s)"

text \<open>
  The \<open>i\<close>-th detached thread wakes at time \<open>now\<close>. \<^verbatim>\<open>sleep_for\<close> blocks for at least the
  given duration, so a task cannot run before it is due: \<open>None\<close>.
\<close>

definition fire_task :: "int \<Rightarrow> nat \<Rightarrow> session \<Rightarrow> (pod_error + session) option" where
  "fire_task now i s =
     (if i < length (pending s) \<and> fst (pending s ! i) \<le> now
      then Some (run_task now (snd (pending s ! i))
                   (s\<lparr>pending := take i (pending s) @ drop (Suc i) (pending s)\<rparr>))
      else None)"

text \<open>
  One round of the watchdog loop after its one-second sleep, as the source writes it:
  the two tests of \<open>watchdog_stalled\<close>, each followed by the call of \<^verbatim>\<open>FinishMessage\<close>.
\<close>

definition watchdog_poll :: "int \<Rightarrow> session \<Rightarrow> pod_error + session" where
  "watchdog_poll now s =
     (let elapsed = now - last_packet_time s
      in if 0 < total_expected_packets s \<and> 60000 < elapsed
         then FinishMessage WatchdogThread now s
         else if 0 < total_expected_packets s \<and> 2500 < elapsed \<and>
                 (let progress = real_of_int (received_packet_count s) /
                                 real_of_int (total_expected_packets s)
                  in 0.98 < progress)
         then FinishMessage WatchdogThread now s
         else Inr s)"

definition StartScan :: "int \<Rightarrow> session \<Rightarrow> session" where
  "StartScan now s =
     (let s1 = emit_status ''Scanning...'' (s\<lparr>watcher_set := True\<rparr>)
      in s1\<lparr>pending := pending s1 @ [(now + 15000, ScanStopTask)]\<rparr>)"

definition destroy :: "int \<Rightarrow> session \<Rightarrow> pod_error + session" where
  "destroy now s =
     (case StopWatchdog PlatformThread now (s\<lparr>alive := False\<rparr>) of
        Inl e \<Rightarrow> Inl e
      | Inr s1 \<Rightarrow>
          (case Disconnect now s1 of
             Inl e \<Rightarrow> Inl e
           | Inr s2 \<Rightarrow> Inr (AllowSleep s2)))"

text \<open>
  The transport's answer to \<^verbatim>\<open>ConnectAsync\<close>, as far as the session keeps it: an exception
  of the first transport call; no device; a device without the service; a device with
  the service, with or without each of the two characteristics.
\<close>

datatype connect_result = ConnectionError | DeviceNotFound | ServiceNotFound | Discovered bool bool

fun ConnectAsync :: "connect_result \<Rightarrow> session \<Rightarrow> session" where
  "ConnectAsync ConnectionError s = emit_status ''Connection Error'' s"
| "ConnectAsync DeviceNotFound s = emit_status ''Device Not Found'' (s\<lparr>device_set := False\<rparr>)"
| "ConnectAsync ServiceNotFound s =
     emit_status ''Service Not Found'' (PreventSleep (s\<lparr>device_set := True\<rparr>))"
| "ConnectAsync (Discovered notify_found write_found) s =
     (let s1 = PreventSleep (s\<lparr>device_set := True\<rparr>);
          s2 = (if notify_found then s1\<lparr>notify_char_set := True\<rparr> else s1);
          s3 = (if write_found then s2\<lparr>write_char_set := True\<rparr> else s2);
          s4 = emit_status ''Connected'' s3
      in WriteCommand [0x08] s4)"

subsection \<open>Runs of the engine\<close>

text \<open>
  What can happen to a session: a call of the public interface, an answer or a
  notification of the transport, a detached thread waking up, a round of the watchdog
  thread. \<open>exec\<close> is \<open>None\<close> when the event cannot happen in that state: a task that is not
  due, a watchdog thread that does not exist.
\<close>

datatype event =
    CallSetCallbacks bool bool bool
  | CallStartScan int
  | CallStopScan
  | CallConnect string connect_result
  | CallDisconnect int
  | CallWriteCommand "byte list"
  | CallDownloadFile int string int int
  | CallCancelDownload int
  | Advertisement string "64 word" int
  | Notify int "byte list"
  | Wake int nat
  | Poll int
  | Destroy int

fun exec :: "(tm \<Rightarrow> int) \<Rightarrow> event \<Rightarrow> session \<Rightarrow> (pod_error + session) option" where
  "exec mk (CallSetCallbacks st sc pl) s = Some (Inr (SetCallbacks st sc pl s))"
| "exec mk (CallStartScan now) s = Some (Inr (StartScan now s))"
| "exec mk CallStopScan s = Some (Inr (StopScan s))"
| "exec mk (CallConnect deviceAddress res) s =
     (case Connect deviceAddress s of
        (s1, Inl e) \<Rightarrow> Some (Inl e)
      | (s1, Inr addr) \<Rightarrow> Some (Inr (ConnectAsync res s1)))"
| "exec mk (CallDisconnect now) s = Some (Disconnect now s)"
| "exec mk (CallWriteCommand d) s = Some (Inr (WriteCommand d s))"
| "exec mk (CallDownloadFile now filename start fin) s = Some (DownloadFile now filename start fin s)"
| "exec mk (CallCancelDownload now) s = Some (CancelDownload PlatformThread now s)"
| "exec mk (Advertisement localName addr rssi) s =
     Some (Inr (OnAdvertisementReceived localName addr rssi s))"
| "exec mk (Notify now d) s = Some (OnValueChanged mk now d s)"
| "exec mk (Wake now i) s = fire_task now i s"
| "exec mk (Poll now) s =
     (if watchdog_running s \<and> watchdog_joinable s then Some (watchdog_poll now s) else None)"
| "exec mk (Destroy now) s = Some (destroy now s)"

fun run :: "(tm \<Rightarrow> int) \<Rightarrow> event list \<Rightarrow> session \<Rightarrow> (pod_error + session) option" where
  "run mk [] s = Some (Inr s)"
| "run mk (e # es) s =
     (case exec mk e s of
        Some (Inr s1) \<Rightarrow> run mk es s1
      | r \<Rightarrow> r)"

inductive reachable :: "(tm \<Rightarrow> int) \<Rightarrow> session \<Rightarrow> bool" for mk :: "tm \<Rightarrow> int" where
  constructed: "reachable mk PodBLECore"
| after_event: "reachable mk s \<Longrightarrow> exec mk e s = Some (Inr s') \<Longrightarrow> reachable mk s'"

text \<open>What a run shows at the public interface and what it leaves behind.\<close>

definition observe :: "(session \<Rightarrow> 'a) \<Rightarrow> (pod_error + session) option \<Rightarrow> (pod_error + 'a) option" where
  "observe f r = map_option (map_sum id f) r"

subsection \<open>Notions used to state the properties\<close>

text \<open>The two characters \<^verbatim>\<open>OnAdvertisementReceived\<close> writes for an octet.\<close>

definition hex_pair :: "64 word \<Rightarrow> string" where
  "hex_pair w = [hex_digit (unat w div 16), hex_digit (unat w mod 16)]"

text \<open>
  The session once \<^verbatim>\<open>ProcessPacket\<close> has stored a first fragment (source lines 257 to
  280) and a later fragment (lines 257 to 259 and 283 to 286), inside the handler,
  which has set the time of the last fragment.
\<close>

definition store_first :: "int \<Rightarrow> byte list \<Rightarrow> session \<Rightarrow> session" where
  "store_first now packet s =
     s\<lparr>last_packet_time := now,
       actual_packet_size :=
         (if actual_packet_size s = 0 then int (length packet) else actual_packet_size s),
       current_message_type := packet ! 0,
       total_expected_packets := sint (read_le32 packet 5),
       payload_buffer := packet ! 0 # drop 9 packet,
       received_packet_count := 1\<rparr>"

definition store_next :: "int \<Rightarrow> byte list \<Rightarrow> session \<Rightarrow> session" where
  "store_next now packet s =
     s\<lparr>last_packet_time := now,
       actual_packet_size :=
         (if actual_packet_size s = 0 then int (length packet) else actual_packet_size s),
       payload_buffer := payload_buffer s @ drop 5 packet,
       received_packet_count := received_packet_count s + 1\<rparr>"

text \<open>Smart Peek runs on the stored fragment and decides to cancel.\<close>

definition peek_cancels :: "(tm \<Rightarrow> int) \<Rightarrow> session \<Rightarrow> bool" where
  "peek_cancels mk s = (smart_peek_due s \<and> peek_verdict mk s)"

text \<open>
  An instance of \<^verbatim>\<open>mktime\<close>, for the examples: a host whose time zone is UTC.
  \<open>days_from_civil y m d\<close> is the usual count of days from 1970-01-01 to the day \<open>d\<close> of
  the month \<open>m\<close>, from 1 to 12, of the year \<open>y\<close> in the Gregorian calendar; a day outside
  the month is counted on from it. \<^verbatim>\<open>mktime\<close> accepts fields outside their ranges: a
  month outside 0 to 11, such as the \<open>-1\<close> Smart Peek passes for the month byte 0,
  carries into the year; days, hours, minutes and seconds are counted on.
\<close>

definition days_from_civil :: "int \<Rightarrow> int \<Rightarrow> int \<Rightarrow> int" where
  "days_from_civil y m d =
     (let y1 = (if m \<le> 2 then y - 1 else y);
          era = y1 div 400;
          yoe = y1 - era * 400;
          doy = (153 * (if 2 < m then m - 3 else m + 9) + 2) div 5 + d - 1;
          doe = yoe * 365 + yoe div 4 - yoe div 100 + doy
      in era * 146097 + doe - 719468)"

definition mktime_utc :: "tm \<Rightarrow> int" where
  "mktime_utc t =
     days_from_civil (tm_year t + 1900 + tm_mon t div 12) (tm_mon t mod 12 + 1) (tm_mday t)
       * 86400 +
     tm_hour t * 3600 + tm_min t * 60 + tm_sec t"







text \<open>
  The tokens of \<^verbatim>\<open>strtoul\<close> in base 16, in the words of the C standard: white space, an
  optional sign, an optional prefix \<^verbatim>\<open>0x\<close> or \<^verbatim>\<open>0X\<close>, then hexadecimal digits, then
  anything that does not continue the digits. \<open>number_token\<close> is a token with at least one
  digit, split into these five parts; the text \<^verbatim>\<open>0\<close> followed by \<^verbatim>\<open>x\<close> and a digit is
  read as a prefix, not as the digit 0. \<open>digitless_token\<close> is a token in which no digit
  follows the white space and the sign, split into three parts.
\<close>

definition no_digit_ahead :: "string \<Rightarrow> bool" where
  "no_digit_ahead rest = (case rest of [] \<Rightarrow> True | c # _ \<Rightarrow> \<not> is_xdigit c)"

definition x_then_digit :: "string \<Rightarrow> bool" where
  "x_then_digit rest =
     (case rest of
        c1 # c2 # _ \<Rightarrow> (c1 = CHR ''x'' \<or> c1 = CHR ''X'') \<and> is_xdigit c2
      | _ \<Rightarrow> False)"

definition number_token :: "string \<Rightarrow> string \<Rightarrow> string \<Rightarrow> string \<Rightarrow> string \<Rightarrow> bool" where
  "number_token ws sg pre ds rest =
     (list_all is_space ws \<and> sg \<in> set [[], ''+'', ''-''] \<and> pre \<in> set [[], ''0x'', ''0X''] \<and>
      ds \<noteq> [] \<and> list_all is_xdigit ds \<and> no_digit_ahead rest \<and>
      \<not> (pre = [] \<and> ds = ''0'' \<and> x_then_digit rest))"

definition digitless_token :: "string \<Rightarrow> string \<Rightarrow> string \<Rightarrow> bool" where
  "digitless_token ws sg rest =
     (list_all is_space ws \<and> sg \<in> set [[], ''+'', ''-''] \<and> no_digit_ahead rest \<and>
      (sg = [] \<longrightarrow>
         (case rest of [] \<Rightarrow> True
          | c # _ \<Rightarrow> \<not> is_space c \<and> c \<noteq> CHR ''+'' \<and> c \<noteq> CHR ''-'')))"

text \<open>The number a string of hexadecimal digits denotes, the last digit counting once.\<close>

definition hex_number :: "string \<Rightarrow> int" where
  "hex_number ds = (\<Sum>i < length ds. the (hex_value (rev ds ! i)) * 16 ^ i)"

subsection \<open>Example data\<close>

text \<open>
  The first fragment of a recording (type \<open>0x03\<close>) that announces three fragments and
  carries 128 payload bytes: the first counter 0, the date 2024-01-01 00:00:00, the
  second counter 100 at payload offset 64. Two later fragments of one payload byte.
\<close>

definition recording_payload :: "byte list" where
  "recording_payload =
     [0, 0, 0, 0, 0xE8, 0x07, 1, 1, 0, 0, 0] @ replicate 53 0 @ [100, 0, 0, 0] @ replicate 60 0"

definition recording_first :: "byte list" where
  "recording_first = [0x03, 0, 0, 0, 0, 3, 0, 0, 0] @ recording_payload"

definition recording_second :: "byte list" where
  "recording_second = [0x03, 0, 0, 0, 0, 0xAA]"

definition recording_third :: "byte list" where
  "recording_third = [0x03, 0, 0, 0, 0, 0xBB]"

text \<open>
  A session with callbacks after the fragment \<open>01 00 00 00 00 03 00 00 00 2A\<close>, which
  opens a message of three fragments.
\<close>

definition open_session :: session where
  "open_session =
     PodBLECore\<lparr>on_status_set := True, on_scan_set := True, on_payload_set := True,
       payload_buffer := [0x01, 0x2A], received_packet_count := 1,
       total_expected_packets := 3, actual_packet_size := 10, current_message_type := 0x01\<rparr>"

text \<open>A session in which Smart Peek is about to run on that recording.\<close>

definition peeking_session :: "int \<Rightarrow> int \<Rightarrow> session" where
  "peeking_session start fin =
     PodBLECore\<lparr>on_payload_set := True, write_char_set := True,
       payload_buffer := 0x03 # recording_payload,
       received_packet_count := 1, total_expected_packets := 3, actual_packet_size := 137,
       current_message_type := 0x03,
       filter_start := start, filter_end := fin, is_filtering := (0 < start \<or> 0 < fin),
       watchdog_running := True, watchdog_joinable := True\<rparr>"

section \<open>Properties\<close>

subsection \<open>Address codec\<close>

declare hex_digits.simps [simp del]

lemma lt16_cases:
  "(d::nat) < 16 \<Longrightarrow> d = 0 \<or> d = 1 \<or> d = 2 \<or> d = 3 \<or> d = 4 \<or> d = 5 \<or> d = 6 \<or> d = 7 \<or>
     d = 8 \<or> d = 9 \<or> d = 10 \<or> d = 11 \<or> d = 12 \<or> d = 13 \<or> d = 14 \<or> d = 15"
  by arith

lemma hex_value_hex_digit: "d < 16 \<Longrightarrow> hex_value (hex_digit d) = Some (int d)"
  by (drule lt16_cases) (auto simp: hex_value_def hex_digit_def)

lemma hex_digit_not_space: "d < 16 \<Longrightarrow> \<not> is_space (hex_digit d)"
  by (drule lt16_cases) (auto simp: is_space_def hex_digit_def)

lemma hex_digit_not_sign:
  "d < 16 \<Longrightarrow> hex_digit d \<noteq> CHR ''-'' \<and> hex_digit d \<noteq> CHR ''+'' \<and> hex_digit d \<noteq> CHR '':''"
  by (drule lt16_cases) (auto simp: hex_digit_def)

lemma setw2_hex_digits:
  assumes "b < 256"
  shows "setw2 (hex_digits b) = [hex_digit (b div 16), hex_digit (b mod 16)]"
proof (cases "b < 16")
  case True
  then show ?thesis
    by (simp add: hex_digits.simps [of b] setw2_def hex_digit_def)
next
  case False
  with assms have "b div 16 < 16" by simp
  with False show ?thesis
    by (simp add: hex_digits.simps [of b] hex_digits.simps [of "b div 16"] setw2_def)
qed

lemma stoul16_two_digits:
  assumes "h < 16" and "l < 16"
  shows "stoul16 [hex_digit h, hex_digit l] = Inr (word_of_int (int (16 * h + l)))"
  using assms hex_digit_not_space [of h] hex_digit_not_sign [of h]
    hex_value_hex_digit [of h] hex_value_hex_digit [of l]
  by (simp add: stoul16_def strip_sign_def strip_0x_def is_xdigit_def digits_value_def)

lemma split_colon_last:
  "c \<noteq> CHR '':'' \<Longrightarrow> d \<noteq> CHR '':'' \<Longrightarrow> split_colon [c, d] = [[c, d]]"
  by simp

lemma split_colon_step:
  "c \<noteq> CHR '':'' \<Longrightarrow> d \<noteq> CHR '':'' \<Longrightarrow>
   split_colon (c # d # CHR '':'' # rest) = [c, d] # split_colon rest"
  by simp

lemma octet_mask: "octet a i = drop_bit (i * 8) a AND mask 8"
  by (simp add: octet_def mask_eq_exp_minus_1)

lemma octet_bound: "unat (octet a i) < 256"
proof -
  have "octet a i \<le> 0xFF" unfolding octet_def by (rule word_and_le1)
  then show ?thesis by (simp add: word_le_nat_alt)
qed

lemma octet_ucast: "ucast (ucast (octet a i) :: 32 word) = octet a i"
  by (rule bit_eqI) (auto simp add: bit_simps octet_mask)

lemma octet_step: "push_bit 8 (drop_bit (Suc i * 8) a) OR octet a i = drop_bit (i * 8) a"
  by (rule bit_eqI) (auto simp add: bit_simps octet_mask)

lemma octets_rebuild:
  fixes a :: "64 word"
  assumes "a < 2 ^ 48"
  shows "push_bit 8 (push_bit 8 (push_bit 8 (push_bit 8 (push_bit 8 (octet a 5) OR octet a 4)
           OR octet a 3) OR octet a 2) OR octet a 1) OR octet a 0 = a"
proof -
  from assms have m: "a AND mask 48 = a"
    by (rule less_mask_eq)
  have "drop_bit 48 (a AND mask 48) = 0"
    by (rule bit_eqI) (simp add: bit_simps)
  with m have "drop_bit 48 a = 0" by simp
  then have "octet a 5 = drop_bit (5 * 8) a"
    using octet_step [of 5 a] by simp
  then show ?thesis
    using octet_step [of 4 a] octet_step [of 3 a] octet_step [of 2 a] octet_step [of 1 a]
      octet_step [of 0 a]
    by simp
qed

lemma format_address_unfold:
  "format_address a =
     setw2 (hex_digits (unat (octet a 5))) @ '':'' @ setw2 (hex_digits (unat (octet a 4))) @ '':'' @
     setw2 (hex_digits (unat (octet a 3))) @ '':'' @ setw2 (hex_digits (unat (octet a 2))) @ '':'' @
     setw2 (hex_digits (unat (octet a 1))) @ '':'' @ setw2 (hex_digits (unat (octet a 0)))"
proof -
  have n: "(5::nat) = Suc 4" "(4::nat) = Suc 3" "(3::nat) = Suc 2" "(2::nat) = Suc 1"
    "(1::nat) = Suc 0"
    by simp_all
  show ?thesis
    unfolding format_address_def
    by (subst n, subst format_from.simps)+ simp
qed

lemma setw2_octet: "setw2 (hex_digits (unat (octet a i))) = hex_pair (octet a i)"
  by (simp add: setw2_hex_digits octet_bound hex_pair_def)

lemma stoul16_octet:
  "stoul16 (hex_pair (octet a i)) = Inr (word_of_int (int (unat (octet a i))))"
proof -
  let ?b = "unat (octet a i)"
  have "?b div 16 < 16" using octet_bound [of a i] by simp
  moreover have "?b mod 16 < 16" by simp
  ultimately have
    "stoul16 (hex_pair (octet a i)) = Inr (word_of_int (int (16 * (?b div 16) + ?b mod 16)))"
    unfolding hex_pair_def by (rule stoul16_two_digits)
  then show ?thesis by simp
qed

lemma split_formatted:
  "split_colon (hex_pair (octet a 5) @ '':'' @ hex_pair (octet a 4) @ '':'' @
     hex_pair (octet a 3) @ '':'' @ hex_pair (octet a 2) @ '':'' @
     hex_pair (octet a 1) @ '':'' @ hex_pair (octet a 0))
   = [hex_pair (octet a 5), hex_pair (octet a 4), hex_pair (octet a 3),
      hex_pair (octet a 2), hex_pair (octet a 1), hex_pair (octet a 0)]"
proof -
  have hi: "\<And>i. unat (octet a i) div 16 < 16"
  proof -
    fix i show "unat (octet a i) div 16 < 16" using octet_bound [of a i] by simp
  qed
  have nc1: "\<And>i. hex_digit (unat (octet a i) div 16) \<noteq> CHR '':''"
    using hi hex_digit_not_sign by blast
  have nc2: "\<And>i. hex_digit (unat (octet a i) mod 16) \<noteq> CHR '':''"
    using hex_digit_not_sign [of "unat (octet a i) mod 16" for i] by simp
  show ?thesis
    unfolding hex_pair_def
    by (simp add: split_colon_step split_colon_last nc1 nc2 del: split_colon.simps)
qed

text \<open>
  C9. A 48-bit address, written as six colon-separated two-digit lower-case
  hexadecimal octets, most significant first, and parsed back by splitting at the
  colons and folding \<open>acc = (acc << 8) | byte\<close>, is the address again.
\<close>

theorem address_roundtrip:
  fixes a :: "64 word"
  assumes "a < 2 ^ 48"
  shows "parse_address (format_address a) = Inr a"
proof -
  have "parse_address (format_address a) =
        parse_tokens 0 [hex_pair (octet a 5), hex_pair (octet a 4), hex_pair (octet a 3),
                        hex_pair (octet a 2), hex_pair (octet a 1), hex_pair (octet a 0)]"
    by (simp only: parse_address_def format_address_unfold setw2_octet split_formatted)
  also have "\<dots> =
      Inr (push_bit 8 (push_bit 8 (push_bit 8 (push_bit 8 (push_bit 8 (octet a 5) OR octet a 4)
           OR octet a 3) OR octet a 2) OR octet a 1) OR octet a 0)"
    by (simp add: stoul16_octet octet_ucast)
  finally show ?thesis by (simp only: octets_rebuild [OF assms])
qed

theorem address_roundtrip_witness:
  "(0xAABBCCDDEEFF :: 64 word) < 2 ^ 48 \<and>
   format_address 0xAABBCCDDEEFF = ''aa:bb:cc:dd:ee:ff'' \<and>
   parse_address (format_address 0xAABBCCDDEEFF) = Inr 0xAABBCCDDEEFF"
proof -
  have h: "(0xAABBCCDDEEFF :: 64 word) < 2 ^ 48" by simp
  have f: "format_address 0xAABBCCDDEEFF = ''aa:bb:cc:dd:ee:ff''" by code_simp
  show ?thesis using h f address_roundtrip [OF h] by simp
qed

subsection \<open>Session operations\<close>

lemma stalled_fields:
  assumes "last_packet_time a = last_packet_time b"
    and "total_expected_packets a = total_expected_packets b"
    and "received_packet_count a = received_packet_count b"
  shows "watchdog_stalled now a = watchdog_stalled now b"
  by (simp add: watchdog_stalled_def assms)

lemma not_stalled_idle: "total_expected_packets s = 0 \<Longrightarrow> \<not> watchdog_stalled now s"
  by (simp add: watchdog_stalled_def)

lemma StopWatchdog_other:
  "caller \<noteq> WatchdogThread \<Longrightarrow>
   StopWatchdog caller now s =
     (if watchdog_joinable s \<and> watchdog_stalled now s then Inl ResourceDeadlock
      else Inr (s\<lparr>watchdog_running := False, watchdog_joinable := False\<rparr>))"
  by (cases s) (simp add: StopWatchdog_def Let_def watchdog_stalled_def)

lemma StopWatchdog_self:
  "watchdog_joinable s \<Longrightarrow> StopWatchdog WatchdogThread now s = Inl ResourceDeadlock"
  by (simp add: StopWatchdog_def Let_def)

lemma CancelDownload_other:
  assumes "caller \<noteq> WatchdogThread"
  shows "CancelDownload caller now s =
     (if watchdog_joinable s \<and> watchdog_stalled now s then Inl ResourceDeadlock
      else Inr (s\<lparr>watchdog_running := False, watchdog_joinable := False,
            command_log := (if write_char_set s then command_log s @ [[0x08]] else command_log s),
            received_packet_count := 0, total_expected_packets := 0, actual_packet_size := 0,
            is_smart_peek_done := False, payload_buffer := [],
            pending := pending s @ [(now + 600, SkipTask)]\<rparr>))"
proof (cases "watchdog_joinable s \<and> watchdog_stalled now s")
  case True
  then show ?thesis using assms by (simp add: CancelDownload_def StopWatchdog_other)
next
  case False
  then have "StopWatchdog caller now s =
      Inr (s\<lparr>watchdog_running := False, watchdog_joinable := False\<rparr>)"
    using assms by (simp add: StopWatchdog_other)
  then show ?thesis
    using False
    by (cases s) (simp add: CancelDownload_def WriteCommand_def ResetDownloadState_def Let_def)
qed

lemma Disconnect_eq:
  "Disconnect now s =
     (if watchdog_joinable s \<and> watchdog_stalled now s then Inl ResourceDeadlock
      else Inr (s\<lparr>watchdog_running := False, watchdog_joinable := False, sleep_prevented := False,
            notify_char_set := False, write_char_set := False, device_set := False,
            received_packet_count := 0, total_expected_packets := 0, actual_packet_size := 0,
            is_smart_peek_done := False, payload_buffer := [],
            status_log := (if on_status_set s then status_log s @ [''Disconnected''] else status_log s)\<rparr>))"
proof (cases "watchdog_joinable s \<and> watchdog_stalled now s")
  case True
  then show ?thesis by (simp add: Disconnect_def StopWatchdog_other)
next
  case False
  then have "StopWatchdog PlatformThread now s =
      Inr (s\<lparr>watchdog_running := False, watchdog_joinable := False\<rparr>)"
    by (simp add: StopWatchdog_other)
  then show ?thesis
    using False
    by (cases s)
      (simp add: Disconnect_def AllowSleep_def ResetDownloadState_def emit_status_def Let_def)
qed

text \<open>
  C7, as amended. \<^verbatim>\<open>Disconnect\<close> first joins the watchdog thread. When that thread exists
  and its last round, at time \<open>now\<close>, finds a message stalled, the round ends the process
  and \<^verbatim>\<open>Disconnect\<close> resets nothing. In every other case \<^verbatim>\<open>Disconnect\<close> puts the received
  count, the expected count, the inferred fragment size, the payload buffer and the
  Smart-Peek-done flag back to the values they have in a new object, and the filter
  bounds, the filtering flag and the message type keep the values they had before the
  call.
\<close>

theorem disconnect_keeps_filter:
  "map_sum id (\<lambda>s'. (received_packet_count s', total_expected_packets s', actual_packet_size s',
                      payload_buffer s', is_smart_peek_done s')) (Disconnect now s)
     = (if watchdog_joinable s \<and> watchdog_stalled now s then Inl ResourceDeadlock
        else Inr (received_packet_count PodBLECore, total_expected_packets PodBLECore,
                  actual_packet_size PodBLECore, payload_buffer PodBLECore,
                  is_smart_peek_done PodBLECore)) \<and>
   map_sum id (\<lambda>s'. (filter_start s', filter_end s', is_filtering s', current_message_type s'))
       (Disconnect now s)
     = (if watchdog_joinable s \<and> watchdog_stalled now s then Inl ResourceDeadlock
        else Inr (filter_start s, filter_end s, is_filtering s, current_message_type s))"
  by (simp add: Disconnect_eq PodBLECore_def)

text \<open>
  C7, two instances. The session of the examples in which one fragment of three has
  arrived at time 0 and the watchdog runs: a disconnection at 1000 ms resets the state
  and keeps the filter end 1000; a disconnection at 60001 ms, when the message is
  stalled, ends the process in the watchdog thread.
\<close>

theorem disconnect_keeps_filter_witness:
  "map_sum id (\<lambda>s'. (received_packet_count s', total_expected_packets s', actual_packet_size s',
                      payload_buffer s', is_smart_peek_done s'))
       (Disconnect 1000 (peeking_session 0 1000)) = Inr (0, 0, 0, [], False) \<and>
   map_sum id (\<lambda>s'. (filter_start s', filter_end s', is_filtering s', current_message_type s'))
       (Disconnect 1000 (peeking_session 0 1000)) = Inr (0, 1000, True, 0x03) \<and>
   map_sum id (\<lambda>s'. (filter_start s', filter_end s', is_filtering s', current_message_type s'))
       (Disconnect 60001 (peeking_session 0 1000)) = Inl ResourceDeadlock"
proof -
  have j: "watchdog_joinable (peeking_session 0 1000)"
    by (simp add: peeking_session_def)
  have a: "\<not> watchdog_stalled 1000 (peeking_session 0 1000)"
    by (simp add: watchdog_stalled_def peeking_session_def PodBLECore_def)
  have b: "watchdog_stalled 60001 (peeking_session 0 1000)"
    by (simp add: watchdog_stalled_def peeking_session_def PodBLECore_def)
  have f: "filter_start (peeking_session 0 1000) = 0" "filter_end (peeking_session 0 1000) = 1000"
    "is_filtering (peeking_session 0 1000)" "current_message_type (peeking_session 0 1000) = 0x03"
    by (simp_all add: peeking_session_def)
  show ?thesis
    using disconnect_keeps_filter [of 1000 "peeking_session 0 1000"]
      disconnect_keeps_filter [of 60001 "peeking_session 0 1000"]
    by (simp add: j a b f PodBLECore_def)
qed

text \<open>
  C7 as stated fails: after a download with the filter window 5 to 9, \<^verbatim>\<open>Disconnect\<close>
  leaves the window and the filtering flag set, while a new object has 0, 0 and false.
\<close>

theorem disconnect_filter_counterexample:
  "observe (\<lambda>s. (filter_start s, filter_end s, is_filtering s))
     (run mktime_utc [CallDownloadFile 0 ''LOG'' 5 9, CallDisconnect 100] PodBLECore)
     = Some (Inr (5, 9, True)) \<and>
   (filter_start PodBLECore, filter_end PodBLECore, is_filtering PodBLECore) = (0, 0, False)"
  by (simp add: observe_def PodBLECore_def DownloadFile_def StopWatchdog_def StartWatchdog_def
      ResetDownloadState_def WriteCommand_def Disconnect_eq watchdog_stalled_def Let_def)

lemma run_task_Skip:
  "run_task now SkipTask s =
     Inr (if alive s \<and> on_payload_set s then s\<lparr>payload_log := payload_log s @ [(now, [0xDA])]\<rparr> else s)"
  by (simp add: emit_payload_def)

lemma fire_task_appended:
  assumes "pending s = ps @ [(due, task)]"
  shows "fire_task now (length ps) s =
           (if due \<le> now then Some (run_task now task (s\<lparr>pending := ps\<rparr>)) else None)"
  using assms by (simp add: fire_task_def nth_append)

text \<open>
  C8, as amended. The session is alive and has a payload callback. \<^verbatim>\<open>CancelDownload\<close>,
  called at time \<open>t0\<close>, first joins the watchdog thread. When that thread exists and its
  last round finds a message stalled, the round ends the process: the call does not
  return and nothing is delivered. In every other case the call delivers nothing itself
  and leaves one task due at \<open>t0 + 600\<close>. That task cannot run before \<open>t0 + 600\<close>; when it
  runs, the payload callback receives the single byte \<open>0xDA\<close> exactly once, and the task
  is gone.
\<close>

theorem cancel_emits_skip_after_delay:
  assumes "alive s" and "on_payload_set s"
  shows "observe (\<lambda>s'. (payload_log s', pending s')) (exec mk (CallCancelDownload t0) s)
           = (if watchdog_joinable s \<and> watchdog_stalled t0 s then Some (Inl ResourceDeadlock)
              else Some (Inr (payload_log s, pending s @ [(t0 + 600, SkipTask)]))) \<and>
         observe (\<lambda>s'. (payload_log s', pending s'))
             (run mk [CallCancelDownload t0, Wake now (length (pending s))] s)
           = (if watchdog_joinable s \<and> watchdog_stalled t0 s then Some (Inl ResourceDeadlock)
              else if t0 + 600 \<le> now
              then Some (Inr (payload_log s @ [(now, [0xDA])], pending s))
              else None)"
proof (cases "watchdog_joinable s \<and> watchdog_stalled t0 s")
  case True
  then have "CancelDownload PlatformThread t0 s = Inl ResourceDeadlock"
    by (simp add: CancelDownload_other)
  with True show ?thesis by (simp add: observe_def)
next
  case False
  let ?s1 = "s\<lparr>watchdog_running := False, watchdog_joinable := False,
            command_log := (if write_char_set s then command_log s @ [[0x08]] else command_log s),
            received_packet_count := 0, total_expected_packets := 0, actual_packet_size := 0,
            is_smart_peek_done := False, payload_buffer := [],
            pending := pending s @ [(t0 + 600, SkipTask)]\<rparr>"
  from False have c: "CancelDownload PlatformThread t0 s = Inr ?s1"
    by (simp add: CancelDownload_other)
  have p: "pending ?s1 = pending s @ [(t0 + 600, SkipTask)]" by simp
  have f: "fire_task now (length (pending s)) ?s1 =
      (if t0 + 600 \<le> now then Some (run_task now SkipTask (?s1\<lparr>pending := pending s\<rparr>)) else None)"
    by (rule fire_task_appended [OF p])
  show ?thesis
    using assms False by (simp add: observe_def c f run_task_Skip del: run_task.simps)
qed

text \<open>
  C8, three instances: a cancellation at 1000 ms, the task woken at 1600 ms and at
  1599 ms; and a cancellation at 60001 ms in the session of the examples, whose message
  has been stalled since time 0 while the watchdog runs.
\<close>

theorem cancel_emits_skip_after_delay_witness:
  "observe (\<lambda>s'. (payload_log s', pending s'))
     (run mktime_utc [CallCancelDownload 1000, Wake 1600 0] (SetCallbacks True True True PodBLECore))
     = Some (Inr ([(1600, [0xDA])], [])) \<and>
   observe (\<lambda>s'. (payload_log s', pending s'))
     (run mktime_utc [CallCancelDownload 1000, Wake 1599 0] (SetCallbacks True True True PodBLECore))
     = None \<and>
   observe (\<lambda>s'. (payload_log s', pending s'))
     (run mktime_utc [CallCancelDownload 60001, Wake 60601 0] (peeking_session 0 1000))
     = Some (Inl ResourceDeadlock)"
proof -
  let ?s = "SetCallbacks True True True PodBLECore"
  let ?p = "peeking_session 0 1000"
  have a: "alive ?s" and b: "on_payload_set ?s" and c: "pending ?s = []" and d: "payload_log ?s = []"
    and j: "\<not> watchdog_joinable ?s"
    by (simp_all add: SetCallbacks_def PodBLECore_def)
  have a': "alive ?p" and b': "on_payload_set ?p" and c': "pending ?p = []"
    and j': "watchdog_joinable ?p"
    by (simp_all add: peeking_session_def PodBLECore_def)
  have w: "watchdog_stalled 60001 ?p"
    by (simp add: watchdog_stalled_def peeking_session_def PodBLECore_def)
  from cancel_emits_skip_after_delay [OF a b, of mktime_utc 1000 1600]
  have x: "observe (\<lambda>s'. (payload_log s', pending s'))
     (run mktime_utc [CallCancelDownload 1000, Wake 1600 0] ?s)
     = Some (Inr ([(1600, [0xDA])], []))"
    by (simp add: c d j)
  from cancel_emits_skip_after_delay [OF a b, of mktime_utc 1000 1599]
  have y: "observe (\<lambda>s'. (payload_log s', pending s'))
     (run mktime_utc [CallCancelDownload 1000, Wake 1599 0] ?s) = None"
    by (simp add: c d j)
  from cancel_emits_skip_after_delay [OF a' b', of mktime_utc 60001 60601]
  have z: "observe (\<lambda>s'. (payload_log s', pending s'))
     (run mktime_utc [CallCancelDownload 60001, Wake 60601 0] ?p) = Some (Inl ResourceDeadlock)"
    by (simp add: c' j' w)
  from x y z show ?thesis by (intro conjI)
qed

text \<open>
  C8 as stated fails: when the object is destroyed between the call and the end of the
  delay, the detached thread finds the liveness flag cleared and delivers nothing.
\<close>

theorem cancel_then_destroy_counterexample:
  "observe payload_log
     (run mktime_utc [CallSetCallbacks True True True, CallCancelDownload 0, Destroy 300, Wake 600 0]
        PodBLECore)
     = Some (Inr [])"
  by (simp add: observe_def PodBLECore_def SetCallbacks_def CancelDownload_other destroy_def
      StopWatchdog_other Disconnect_eq AllowSleep_def fire_task_def)

subsection \<open>The watchdog\<close>

lemma FinishMessage_watchdog:
  "watchdog_joinable s \<Longrightarrow> FinishMessage WatchdogThread now s = Inl ResourceDeadlock"
  by (simp add: FinishMessage_def StopWatchdog_self)

lemma last_round:
  "watchdog_joinable s \<Longrightarrow>
   watchdog_poll now s = (if watchdog_stalled now s then Inl ResourceDeadlock else Inr s)"
  by (auto simp add: watchdog_poll_def watchdog_stalled_def Let_def FinishMessage_watchdog)

lemma watchdog_round:
  "exec mk (Poll now) s =
     (if watchdog_running s \<and> watchdog_joinable s
      then Some (if 0 < total_expected_packets s \<and>
                    (60000 < now - last_packet_time s \<or>
                     2500 < now - last_packet_time s \<and>
                     0.98 < real_of_int (received_packet_count s) /
                            real_of_int (total_expected_packets s))
                 then Inl ResourceDeadlock else Inr s)
      else None)"
  by (auto simp add: watchdog_poll_def Let_def FinishMessage_watchdog)

text \<open>
  C3. A download is started, the first fragment of a message of 100 fragments arrives
  at 1000 ms, and nothing more. The watchdog round at 61001 ms finds the hard timeout
  exceeded and calls \<^verbatim>\<open>FinishMessage\<close>, whose \<^verbatim>\<open>StopWatchdog\<close> joins the watchdog thread from
  that very thread: the call throws before any payload is handed off.
\<close>

theorem watchdog_hard_timeout_throws:
  "observe payload_log
     (run mktime_utc
        [CallSetCallbacks True True True,
         CallConnect ''aa:bb:cc:dd:ee:ff'' (Discovered True True),
         CallDownloadFile 0 ''LOG'' 0 0,
         Notify 1000 [0x01, 0, 0, 0, 0, 100, 0, 0, 0, 0x2A],
         Poll 61001]
        PodBLECore)
     = Some (Inl ResourceDeadlock)"
  by code_simp

subsection \<open>Connect\<close>

lemma parse_tokens_find:
  "parse_tokens acc toks =
     (case find (\<lambda>tok. isl (stoul16 tok)) toks of
        None \<Rightarrow> Inr (foldl (\<lambda>a tok. push_bit 8 a OR ucast (projr (stoul16 tok))) acc toks)
      | Some tok \<Rightarrow> Inl (projl (stoul16 tok)))"
proof (induction toks arbitrary: acc)
  case Nil
  show ?case by simp
next
  case (Cons tok toks)
  show ?case
  proof (cases "stoul16 tok")
    case (Inl e)
    then show ?thesis by simp
  next
    case (Inr v)
    then show ?thesis by (simp add: Cons.IH split: option.splits)
  qed
qed

lemma space_not_xdigit: "is_space c \<Longrightarrow> \<not> is_xdigit c"
  by (auto simp add: is_space_def is_xdigit_def hex_value_def)

lemma xdigit_not_sign:
  "is_xdigit c \<Longrightarrow> c \<noteq> CHR ''+'' \<and> c \<noteq> CHR ''-'' \<and> c \<noteq> CHR ''x'' \<and> c \<noteq> CHR ''X''"
  by (auto simp add: is_xdigit_def hex_value_def)

lemma zero_xdigit: "is_xdigit (CHR ''0'')"
  by (simp add: is_xdigit_def hex_value_def)

lemma sign_not_space: "\<not> is_space (CHR ''+'')" "\<not> is_space (CHR ''-'')"
  by (simp_all add: is_space_def)

lemma dropWhile_spaces:
  assumes "list_all is_space ws" and "case r of [] \<Rightarrow> True | c # _ \<Rightarrow> \<not> is_space c"
  shows "dropWhile is_space (ws @ r) = r"
proof -
  from assms(1) have "dropWhile is_space (ws @ r) = dropWhile is_space r"
    by (simp add: list_all_iff dropWhile_append2)
  also from assms(2) have "\<dots> = r" by (cases r) simp_all
  finally show ?thesis .
qed

lemma takeWhile_digits:
  assumes "list_all is_xdigit ds" and "no_digit_ahead rest"
  shows "takeWhile is_xdigit (ds @ rest) = ds"
proof -
  from assms(1) have "takeWhile is_xdigit (ds @ rest) = ds @ takeWhile is_xdigit rest"
    by (simp add: list_all_iff takeWhile_append2)
  also from assms(2) have "takeWhile is_xdigit rest = []"
    by (cases rest) (simp_all add: no_digit_ahead_def)
  finally show ?thesis by simp
qed

lemma strip_0x_digits:
  assumes "ds \<noteq> []" and "list_all is_xdigit ds" and "\<not> (ds = ''0'' \<and> x_then_digit rest)"
  shows "strip_0x (ds @ rest) = ds @ rest"
proof (cases ds)
  case Nil
  with assms(1) show ?thesis by simp
next
  case (Cons d ds')
  show ?thesis
  proof (cases ds')
    case (Cons e ds'')
    with assms(2) \<open>ds = d # ds'\<close> have "is_xdigit e" by simp
    then have "e \<noteq> CHR ''x''" "e \<noteq> CHR ''X''" using xdigit_not_sign by blast+
    then show ?thesis
      using Cons \<open>ds = d # ds'\<close> by (cases "ds'' @ rest") (simp_all add: strip_0x_def)
  next
    case Nil
    show ?thesis
    proof (cases rest)
      case Nil
      then show ?thesis using \<open>ds = d # ds'\<close> \<open>ds' = []\<close> by (simp add: strip_0x_def)
    next
      case (Cons c1 r1)
      show ?thesis
      proof (cases r1)
        case Nil
        then show ?thesis using Cons \<open>ds = d # ds'\<close> \<open>ds' = []\<close> by (simp add: strip_0x_def)
      next
        case (Cons c2 r2)
        with assms(3) \<open>rest = c1 # r1\<close> \<open>ds = d # ds'\<close> \<open>ds' = []\<close>
        show ?thesis by (auto simp add: strip_0x_def x_then_digit_def)
      qed
    qed
  qed
qed

lemma strip_0x_prefix:
  assumes "ds \<noteq> []" and "list_all is_xdigit ds" and "pre = ''0x'' \<or> pre = ''0X''"
  shows "strip_0x (pre @ ds @ rest) = ds @ rest"
  using assms by (cases ds) (auto simp add: strip_0x_def)

lemma stoul16_body:
  assumes "strip_sign (dropWhile is_space tok) = (neg, body)"
    and "takeWhile is_xdigit (strip_0x body) = ds"
  shows "stoul16 tok =
     (if ds = [] then Inl InvalidArgument
      else if 2 ^ 32 \<le> digits_value ds then Inl OutOfRange
      else Inr (if neg then - word_of_int (digits_value ds) else word_of_int (digits_value ds)))"
  using assms by (simp add: stoul16_def Let_def)

lemma stoul16_number:
  assumes "number_token ws sg pre ds rest"
  shows "stoul16 (ws @ sg @ pre @ ds @ rest) =
     (if 2 ^ 32 \<le> digits_value ds then Inl OutOfRange
      else Inr (if sg = ''-'' then - word_of_int (digits_value ds)
                else word_of_int (digits_value ds)))"
proof -
  from assms have ws: "list_all is_space ws" and sg: "sg = [] \<or> sg = ''+'' \<or> sg = ''-''"
    and pre: "pre = [] \<or> pre = ''0x'' \<or> pre = ''0X''"
    and ds: "ds \<noteq> []" "list_all is_xdigit ds" and rest: "no_digit_ahead rest"
    and amb: "\<not> (pre = [] \<and> ds = ''0'' \<and> x_then_digit rest)"
    by (auto simp add: number_token_def)
  from ds obtain d ds' where d: "ds = d # ds'" "is_xdigit d" by (cases ds) auto
  have hd_body: "case pre @ ds @ rest of [] \<Rightarrow> True
      | c # _ \<Rightarrow> \<not> is_space c \<and> c \<noteq> CHR ''+'' \<and> c \<noteq> CHR ''-''"
    using pre d space_not_xdigit [of d] xdigit_not_sign [of d]
      space_not_xdigit [of "CHR ''0''"] zero_xdigit
    by auto
  have body: "strip_0x (pre @ ds @ rest) = ds @ rest"
  proof (cases "pre = []")
    case True
    with amb have "\<not> (ds = ''0'' \<and> x_then_digit rest)" by simp
    with ds True show ?thesis by (simp add: strip_0x_digits)
  next
    case False
    with pre have "pre = ''0x'' \<or> pre = ''0X''" by simp
    with ds show ?thesis by (rule strip_0x_prefix)
  qed
  have tk: "takeWhile is_xdigit (strip_0x (pre @ ds @ rest)) = ds"
    using ds(2) rest by (simp only: body takeWhile_digits)
  have dw: "dropWhile is_space (ws @ sg @ pre @ ds @ rest) = sg @ pre @ ds @ rest"
  proof (rule dropWhile_spaces [OF ws])
    show "case sg @ pre @ ds @ rest of [] \<Rightarrow> True | c # _ \<Rightarrow> \<not> is_space c"
      using sg hd_body sign_not_space by (auto split: list.splits)
  qed
  have ss: "strip_sign (sg @ pre @ ds @ rest) = (sg = ''-'', pre @ ds @ rest)"
    using sg hd_body by (auto simp add: strip_sign_def split: list.splits)
  show ?thesis
    using stoul16_body [of "ws @ sg @ pre @ ds @ rest" "sg = ''-''" "pre @ ds @ rest" ds] ds(1)
    by (simp only: dw ss tk) simp
qed

lemma stoul16_digitless:
  assumes "digitless_token ws sg rest"
  shows "stoul16 (ws @ sg @ rest) = Inl InvalidArgument"
proof -
  from assms have ws: "list_all is_space ws" and sg: "sg = [] \<or> sg = ''+'' \<or> sg = ''-''"
    and rest: "no_digit_ahead rest"
    and hd: "sg = [] \<Longrightarrow> (case rest of [] \<Rightarrow> True
          | c # _ \<Rightarrow> \<not> is_space c \<and> c \<noteq> CHR ''+'' \<and> c \<noteq> CHR ''-'')"
    by (auto simp add: digitless_token_def)
  have dw: "dropWhile is_space (ws @ sg @ rest) = sg @ rest"
  proof (rule dropWhile_spaces [OF ws])
    show "case sg @ rest of [] \<Rightarrow> True | c # _ \<Rightarrow> \<not> is_space c"
      using sg hd sign_not_space by (auto split: list.splits)
  qed
  have ss: "strip_sign (sg @ rest) = (sg = ''-'', rest)"
    using sg hd by (auto simp add: strip_sign_def split: list.splits)
  have s0: "strip_0x rest = rest"
    using rest zero_xdigit
    by (auto simp add: strip_0x_def no_digit_ahead_def split: list.splits)
  have "takeWhile is_xdigit rest = []"
    using rest by (cases rest) (simp_all add: no_digit_ahead_def)
  then have tk: "takeWhile is_xdigit (strip_0x rest) = []"
    by (simp only: s0)
  show ?thesis
    using stoul16_body [of "ws @ sg @ rest" "sg = ''-''" rest "[]"]
    by (simp only: dw ss tk) simp
qed

lemma dropWhile_head: "case dropWhile P xs of [] \<Rightarrow> True | c # _ \<Rightarrow> \<not> P c"
  by (induction xs) auto

lemma no_digit_after_digits: "no_digit_ahead (dropWhile is_xdigit str)"
  unfolding no_digit_ahead_def by (rule dropWhile_head)

lemma digits_taken: "list_all is_xdigit (takeWhile is_xdigit str)"
  by (auto simp add: list_all_iff dest: set_takeWhileD)

lemma token_shapes:
  "(\<exists>ws sg rest. tok = ws @ sg @ rest \<and> digitless_token ws sg rest) \<or>
   (\<exists>ws sg pre ds rest. tok = ws @ sg @ pre @ ds @ rest \<and> number_token ws sg pre ds rest)"
proof -
  define ws where "ws = takeWhile is_space tok"
  define r0 where "r0 = dropWhile is_space tok"
  have tok: "tok = ws @ r0" by (simp add: ws_def r0_def)
  have ws: "list_all is_space ws"
    by (auto simp add: ws_def list_all_iff dest: set_takeWhileD)
  have r0: "case r0 of [] \<Rightarrow> True | c # _ \<Rightarrow> \<not> is_space c"
    unfolding r0_def by (rule dropWhile_head)
  obtain sg body where sb: "r0 = sg @ body" "sg = [] \<or> sg = ''+'' \<or> sg = ''-''"
    and nosign: "sg = [] \<longrightarrow> (case body of [] \<Rightarrow> True
          | c # _ \<Rightarrow> \<not> is_space c \<and> c \<noteq> CHR ''+'' \<and> c \<noteq> CHR ''-'')"
  proof (cases r0)
    case Nil
    then show ?thesis using that [of "[]" "[]"] by simp
  next
    case (Cons c t)
    show ?thesis
    proof (cases "c = CHR ''+'' \<or> c = CHR ''-''")
      case True
      then show ?thesis using Cons that [of "[c]" t] by auto
    next
      case False
      then show ?thesis using Cons r0 that [of "[]" r0] by auto
    qed
  qed
  show ?thesis
  proof (cases "\<exists>c1 c2 t. body = CHR ''0'' # c1 # c2 # t \<and> (c1 = CHR ''x'' \<or> c1 = CHR ''X'') \<and>
      is_xdigit c2")
    case True
    then obtain c1 c2 t where b: "body = CHR ''0'' # c1 # c2 # t"
      and c1: "c1 = CHR ''x'' \<or> c1 = CHR ''X''" and c2: "is_xdigit c2"
      by blast
    define ds where "ds = takeWhile is_xdigit (c2 # t)"
    define rest where "rest = dropWhile is_xdigit (c2 # t)"
    have "c2 # t = ds @ rest" by (simp add: ds_def rest_def)
    then have "tok = ws @ sg @ [CHR ''0'', c1] @ ds @ rest"
      by (simp add: tok sb(1) b)
    moreover have "number_token ws sg [CHR ''0'', c1] ds rest"
      using ws sb(2) c1 c2 no_digit_after_digits [of "c2 # t"] digits_taken [of "c2 # t"]
      by (auto simp add: number_token_def ds_def rest_def)
    ultimately show ?thesis by blast
  next
    case False
    define ds where "ds = takeWhile is_xdigit body"
    define rest where "rest = dropWhile is_xdigit body"
    have body: "body = ds @ rest" by (simp add: ds_def rest_def)
    show ?thesis
    proof (cases "ds = []")
      case True
      then have "rest = body" using body by simp
      then have "no_digit_ahead body" using no_digit_after_digits [of body] by (simp add: rest_def)
      then have "digitless_token ws sg body"
        using ws sb(2) nosign by (auto simp add: digitless_token_def)
      moreover have "tok = ws @ sg @ body" by (simp add: tok sb(1))
      ultimately show ?thesis by blast
    next
      case nonempty: False
      have "\<not> (ds = ''0'' \<and> x_then_digit rest)"
      proof
        assume a: "ds = ''0'' \<and> x_then_digit rest"
        then obtain c1 c2 t where "rest = c1 # c2 # t" "c1 = CHR ''x'' \<or> c1 = CHR ''X''"
          "is_xdigit c2"
          by (auto simp add: x_then_digit_def split: list.splits)
        with a body have "\<exists>c1 c2 t. body = CHR ''0'' # c1 # c2 # t \<and>
            (c1 = CHR ''x'' \<or> c1 = CHR ''X'') \<and> is_xdigit c2"
          by simp
        with False show False by blast
      qed
      then have "number_token ws sg [] ds rest"
        using ws sb(2) nonempty no_digit_after_digits [of body] digits_taken [of body]
        by (auto simp add: number_token_def ds_def rest_def)
      moreover have "tok = ws @ sg @ [] @ ds @ rest" by (simp add: tok sb(1) body)
      ultimately show ?thesis by blast
    qed
  qed
qed

lemma digits_value_snoc:
  "digits_value (ds @ [c]) = 16 * digits_value ds + the (hex_value c)"
  by (simp add: digits_value_def)

lemma hex_number_snoc:
  "hex_number (ds @ [c]) = 16 * hex_number ds + the (hex_value c)"
proof -
  have "hex_number (ds @ [c]) =
      (\<Sum>i < Suc (length ds). the (hex_value ((c # rev ds) ! i)) * 16 ^ i)"
    by (simp add: hex_number_def)
  also have "\<dots> = the (hex_value c) + (\<Sum>i < length ds. the (hex_value (rev ds ! i)) * 16 ^ Suc i)"
    by (simp only: sum.lessThan_Suc_shift) simp
  also have "(\<Sum>i < length ds. the (hex_value (rev ds ! i)) * 16 ^ Suc i) = 16 * hex_number ds"
    by (simp add: hex_number_def sum_distrib_left mult.assoc mult.left_commute)
  finally show ?thesis by simp
qed

lemma digits_value_number: "digits_value ds = hex_number ds"
proof (induction ds rule: rev_induct)
  case Nil
  show ?case by (simp add: digits_value_def hex_number_def)
next
  case (snoc c ds)
  then show ?case by (simp only: digits_value_snoc hex_number_snoc)
qed

text \<open>
  C6, as amended. \<^verbatim>\<open>Connect\<close> stops the scan and reports \<open>Connecting...\<close> whatever the
  address text is, and validates nothing. It accepts any number of tokens: the result is
  the fold of the converted tokens, unless some token cannot be converted, and then the
  exception of the first such token leaves \<^verbatim>\<open>Connect\<close>. A token is converted by its
  shape. When hexadecimal digits follow the optional white space, sign and prefix, the
  token is accepted whatever comes after the digits: its value is the number the digits
  denote, negated modulo \<open>2^32\<close> after a minus sign, and only a number of \<open>2^32\<close> or more
  is refused, with \<^verbatim>\<open>std::out_of_range\<close>. When no digit follows the white space and the
  sign, the token is refused with \<^verbatim>\<open>std::invalid_argument\<close>. Every token has one of the
  two shapes.
\<close>

theorem connect_parses_without_validation:
  "fst (Connect str s) = emit_status ''Connecting...'' (StopScan s) \<and>
   snd (Connect str s) =
     (case find (\<lambda>tok. isl (stoul16 tok)) (split_colon str) of
        None \<Rightarrow> Inr (foldl (\<lambda>a tok. push_bit 8 a OR ucast (projr (stoul16 tok))) 0
                       (split_colon str))
      | Some tok \<Rightarrow> Inl (projl (stoul16 tok))) \<and>
   (number_token ws sg pre ds rest \<longrightarrow>
      stoul16 (ws @ sg @ pre @ ds @ rest) =
        (if 2 ^ 32 \<le> hex_number ds then Inl OutOfRange
         else Inr (if sg = ''-'' then - word_of_int (hex_number ds)
                   else word_of_int (hex_number ds)))) \<and>
   (digitless_token ws' sg' rest' \<longrightarrow> stoul16 (ws' @ sg' @ rest') = Inl InvalidArgument) \<and>
   ((\<exists>w g r. tok = w @ g @ r \<and> digitless_token w g r) \<or>
    (\<exists>w g p d r. tok = w @ g @ p @ d @ r \<and> number_token w g p d r))"
proof -
  have a: "fst (Connect str s) = emit_status ''Connecting...'' (StopScan s)"
    by (simp add: Connect_def Let_def)
  have b: "snd (Connect str s) =
     (case find (\<lambda>tok. isl (stoul16 tok)) (split_colon str) of
        None \<Rightarrow> Inr (foldl (\<lambda>a tok. push_bit 8 a OR ucast (projr (stoul16 tok))) 0
                       (split_colon str))
      | Some tok \<Rightarrow> Inl (projl (stoul16 tok)))"
    by (simp add: Connect_def Let_def parse_address_def parse_tokens_find)
  have c: "number_token ws sg pre ds rest \<longrightarrow>
      stoul16 (ws @ sg @ pre @ ds @ rest) =
        (if 2 ^ 32 \<le> hex_number ds then Inl OutOfRange
         else Inr (if sg = ''-'' then - word_of_int (hex_number ds)
                   else word_of_int (hex_number ds)))"
    using stoul16_number [of ws sg pre ds rest] by (simp only: digits_value_number) simp
  have d: "digitless_token ws' sg' rest' \<longrightarrow> stoul16 (ws' @ sg' @ rest') = Inl InvalidArgument"
    using stoul16_digitless by blast
  from a b c d token_shapes [of tok] show ?thesis by (intro conjI)
qed

text \<open>
  C6 as stated fails: two tokens, the second with a character that is no hexadecimal
  digit, are accepted and give the address \<open>0x1203\<close>.
\<close>

theorem connect_accepts_malformed_counterexample:
  "snd (Connect ''12:3g'' PodBLECore) = Inr 0x1203"
  by (simp add: Connect_def Let_def parse_address_def stoul16_def strip_sign_def strip_0x_def
      is_space_def is_xdigit_def hex_value_def digits_value_def)

text \<open>
  C6, instances: a token with white space, a minus sign, a prefix and a character after
  the digits; a token of nine digits; a token without digits; an address with such a
  token; an address of seven tokens.
\<close>

theorem connect_parses_without_validation_witness:
  "number_token '' '' ''-'' ''0x'' ''1f'' ''g'' \<and>
   stoul16 '' -0x1fg'' = Inr (- 0x1f) \<and>
   number_token [] [] [] ''123456789'' [] \<and>
   stoul16 ''123456789'' = Inl OutOfRange \<and>
   digitless_token [] ''+'' ''zz'' \<and>
   stoul16 ''+zz'' = Inl InvalidArgument \<and>
   snd (Connect ''aa:+zz:bb'' PodBLECore) = Inl InvalidArgument \<and>
   snd (Connect ''1:2:3:4:5:6:7'' PodBLECore) = Inr 0x01020304050607"
proof -
  note t1 = connect_parses_without_validation
    [of "''aa:+zz:bb''" PodBLECore "'' ''" "''-''" "''0x''" "''1f''" "''g''"
        "[]" "''+''" "''zz''" "[]"]
  note t2 = connect_parses_without_validation
    [of "''1:2:3:4:5:6:7''" PodBLECore "[]" "[]" "[]" "''123456789''" "[]"
        "[]" "''+''" "''zz''" "[]"]
  have n1: "number_token '' '' ''-'' ''0x'' ''1f'' ''g''"
    by (simp add: number_token_def is_space_def is_xdigit_def hex_value_def no_digit_ahead_def)
  have n2: "number_token [] [] [] ''123456789'' []"
    by (simp add: number_token_def is_xdigit_def hex_value_def no_digit_ahead_def)
  have n3: "digitless_token [] ''+'' ''zz''"
    by (simp add: digitless_token_def is_xdigit_def hex_value_def no_digit_ahead_def)
  have v1: "hex_number ''1f'' = 31" and v2: "hex_number ''123456789'' = 4886718345"
    by (simp_all add: hex_number_def hex_value_def lessThan_Suc)
  from t1 n1 have s1: "stoul16 '' -0x1fg'' = Inr (- 0x1f)"
    by (simp add: v1)
  from t2 n2 have s2: "stoul16 ''123456789'' = Inl OutOfRange"
    by (simp add: v2)
  from t1 n3 have s3: "stoul16 ''+zz'' = Inl InvalidArgument"
    by simp
  have a: "stoul16 ''aa'' = Inr 0xaa"
    by (simp add: stoul16_def strip_sign_def strip_0x_def is_space_def is_xdigit_def
        hex_value_def digits_value_def)
  have d: "stoul16 ''1'' = Inr 1" "stoul16 ''2'' = Inr 2" "stoul16 ''3'' = Inr 3"
    "stoul16 ''4'' = Inr 4" "stoul16 ''5'' = Inr 5" "stoul16 ''6'' = Inr 6" "stoul16 ''7'' = Inr 7"
    by (simp_all add: stoul16_def strip_sign_def strip_0x_def is_space_def is_xdigit_def
        hex_value_def digits_value_def)
  from t1 have c1: "snd (Connect ''aa:+zz:bb'' PodBLECore) = Inl InvalidArgument"
    by (simp add: a s3)
  from t2 have c2: "snd (Connect ''1:2:3:4:5:6:7'' PodBLECore) = Inr 0x01020304050607"
    by (simp add: d)
  from n1 s1 n2 s2 n3 s3 c1 c2 show ?thesis by (intro conjI)
qed

subsection \<open>Smart Peek abort\<close>

text \<open>
  C10, as amended. When the Smart Peek block runs and decides to cancel,
  \<^verbatim>\<open>PerformSmartPeek\<close> is the call of \<^verbatim>\<open>CancelDownload\<close> a caller would make at that moment:
  the watchdog is joined, the command \<open>0x08\<close> is written when a write characteristic
  exists, the download state is reset with the buffer emptied during the processing of
  the fragment, and one task is left that delivers the byte \<open>0xDA\<close> no earlier than
  600 ms later (or the process ends in the watchdog's last round, as it would for the
  caller). The session \<^verbatim>\<open>ProcessPacket\<close> leaves is the one of the caller's cancellation
  with the Smart-Peek-done flag set instead of cleared.
\<close>

theorem smart_peek_abort_is_cancel_download:
  assumes "smart_peek_due s" and "peek_verdict mk s"
  shows "PerformSmartPeek mk now s = CancelDownload PlatformThread now s \<and>
         ProcessPacket_tail mk now s =
           map_sum id (\<lambda>s'. s'\<lparr>is_smart_peek_done := True\<rparr>) (CancelDownload PlatformThread now s) \<and>
         ProcessPacket_tail mk now s =
           (if watchdog_joinable s \<and> watchdog_stalled now s then Inl ResourceDeadlock
            else Inr (s\<lparr>watchdog_running := False, watchdog_joinable := False,
                  command_log := (if write_char_set s then command_log s @ [[0x08]] else command_log s),
                  received_packet_count := 0, total_expected_packets := 0,
                  actual_packet_size := 0, is_smart_peek_done := True, payload_buffer := [],
                  pending := pending s @ [(now + 600, SkipTask)]\<rparr>)) \<and>
         observe payload_log
           (case ProcessPacket_tail mk now s of
              Inl e \<Rightarrow> Some (Inl e)
            | Inr s' \<Rightarrow> fire_task later (length (pending s)) s')
           = (if watchdog_joinable s \<and> watchdog_stalled now s then Some (Inl ResourceDeadlock)
              else if now + 600 \<le> later
              then Some (Inr (if alive s \<and> on_payload_set s
                              then payload_log s @ [(later, [0xDA])] else payload_log s))
              else None)"
proof -
  from assms(1) have len: "\<not> length (payload_buffer s) < 129"
    by (simp add: smart_peek_due_def)
  have c: "CancelDownload NotifyThread now s = CancelDownload PlatformThread now s"
    by (simp add: CancelDownload_other)
  have p: "PerformSmartPeek mk now s = CancelDownload PlatformThread now s"
    using assms(2) len by (simp add: PerformSmartPeek_def c)
  show ?thesis
  proof (cases "watchdog_joinable s \<and> watchdog_stalled now s")
    case True
    then have k: "CancelDownload PlatformThread now s = Inl ResourceDeadlock"
      by (simp add: CancelDownload_other)
    have t: "ProcessPacket_tail mk now s = Inl ResourceDeadlock"
      using assms(1) by (simp add: ProcessPacket_tail_def smart_peek_block_def p k)
    from True show ?thesis by (simp add: p t k observe_def)
  next
    case False
    let ?s0 = "s\<lparr>watchdog_running := False, watchdog_joinable := False,
                  command_log := (if write_char_set s then command_log s @ [[0x08]] else command_log s),
                  received_packet_count := 0, total_expected_packets := 0,
                  actual_packet_size := 0, is_smart_peek_done := False, payload_buffer := [],
                  pending := pending s @ [(now + 600, SkipTask)]\<rparr>"
    let ?s1 = "s\<lparr>watchdog_running := False, watchdog_joinable := False,
                  command_log := (if write_char_set s then command_log s @ [[0x08]] else command_log s),
                  received_packet_count := 0, total_expected_packets := 0,
                  actual_packet_size := 0, is_smart_peek_done := True, payload_buffer := [],
                  pending := pending s @ [(now + 600, SkipTask)]\<rparr>"
    from False have k: "CancelDownload PlatformThread now s = Inr ?s0"
      by (simp add: CancelDownload_other)
    have t: "ProcessPacket_tail mk now s = Inr ?s1"
      using assms(1)
      by (simp add: ProcessPacket_tail_def smart_peek_block_def completion_check_def p k)
    have q: "pending ?s1 = pending s @ [(now + 600, SkipTask)]" by simp
    have f: "fire_task later (length (pending s)) ?s1 =
        (if now + 600 \<le> later then Some (run_task later SkipTask (?s1\<lparr>pending := pending s\<rparr>)) else None)"
      by (rule fire_task_appended [OF q])
    from False show ?thesis
      by (simp add: p t k f run_task_Skip observe_def del: run_task.simps)
  qed
qed

text \<open>
  C10, an instance: the recording of the examples with a filter that ends at 1000 ms,
  long before the recording starts.
\<close>

theorem smart_peek_abort_is_cancel_download_witness:
  "smart_peek_due (peeking_session 0 1000) \<and>
   peek_verdict mktime_utc (peeking_session 0 1000) \<and>
   PerformSmartPeek mktime_utc 40 (peeking_session 0 1000)
     = CancelDownload PlatformThread 40 (peeking_session 0 1000) \<and>
   observe payload_log
     (case ProcessPacket_tail mktime_utc 40 (peeking_session 0 1000) of
        Inl e \<Rightarrow> Some (Inl e)
      | Inr s' \<Rightarrow> fire_task 640 (length (pending (peeking_session 0 1000))) s')
     = Some (Inr [(640, [0xDA])])"
proof -
  have a: "smart_peek_due (peeking_session 0 1000)" by code_simp
  have b: "peek_verdict mktime_utc (peeking_session 0 1000)" by code_simp
  have c: "alive (peeking_session 0 1000)" "on_payload_set (peeking_session 0 1000)"
    "payload_log (peeking_session 0 1000) = []"
    by (simp_all add: peeking_session_def PodBLECore_def)
  have w: "\<not> watchdog_stalled 40 (peeking_session 0 1000)"
    by (simp add: watchdog_stalled_def peeking_session_def PodBLECore_def)
  note t = smart_peek_abort_is_cancel_download [OF a b, of 40 640]
  from t have p: "PerformSmartPeek mktime_utc 40 (peeking_session 0 1000)
      = CancelDownload PlatformThread 40 (peeking_session 0 1000)"
    by (rule conjunct1)
  from t have "observe payload_log
     (case ProcessPacket_tail mktime_utc 40 (peeking_session 0 1000) of
        Inl e \<Rightarrow> Some (Inl e)
      | Inr s' \<Rightarrow> fire_task 640 (length (pending (peeking_session 0 1000))) s')
     = (if watchdog_joinable (peeking_session 0 1000) \<and>
           watchdog_stalled 40 (peeking_session 0 1000) then Some (Inl ResourceDeadlock)
        else if (40::int) + 600 \<le> 640
        then Some (Inr (if alive (peeking_session 0 1000) \<and> on_payload_set (peeking_session 0 1000)
                        then payload_log (peeking_session 0 1000) @ [(640, [0xDA])]
                        else payload_log (peeking_session 0 1000)))
        else None)"
    by (elim conjE)
  then have q: "observe payload_log
     (case ProcessPacket_tail mktime_utc 40 (peeking_session 0 1000) of
        Inl e \<Rightarrow> Some (Inl e)
      | Inr s' \<Rightarrow> fire_task 640 (length (pending (peeking_session 0 1000))) s')
     = Some (Inr [(640, [0xDA])])"
    by (simp only: c w) simp
  from a b p q show ?thesis by (intro conjI)
qed

text \<open>
  C10 as stated fails: the two cancellations can be told apart at the public interface.
  A download with a filter that ends at 1000 ms is started. In the first run the first
  fragment of the recording arrives at 10 ms and Smart Peek aborts the download; in the
  second the caller cancels at 10 ms. The same fragment then arrives at 20 ms. After
  the Smart-Peek abort the flag is still set and nothing more is written; after the
  caller's cancellation the flag is cleared, Smart Peek runs again, and the command
  \<open>0x08\<close> is written a second time and a second skip marker is scheduled.
\<close>

theorem smart_peek_abort_distinguishable_counterexample:
  "observe (\<lambda>s. (command_log s, pending s))
     (run mktime_utc
        [CallSetCallbacks True True True,
         CallConnect ''aa:bb:cc:dd:ee:ff'' (Discovered True True),
         CallDownloadFile 0 ''LOG'' 0 1000,
         Notify 10 recording_first,
         Notify 20 recording_first]
        PodBLECore)
     = Some (Inr ([[0x08], download_command ''LOG'', [0x08]], [(610, SkipTask)])) \<and>
   observe (\<lambda>s. (command_log s, pending s))
     (run mktime_utc
        [CallSetCallbacks True True True,
         CallConnect ''aa:bb:cc:dd:ee:ff'' (Discovered True True),
         CallDownloadFile 0 ''LOG'' 0 1000,
         CallCancelDownload 10,
         Notify 20 recording_first]
        PodBLECore)
     = Some (Inr ([[0x08], download_command ''LOG'', [0x08], [0x08]],
                  [(610, SkipTask), (620, SkipTask)]))"
  by code_simp

subsection \<open>Packet reassembly\<close>

lemma block_no_cancel:
  assumes "\<not> peek_cancels mk s"
  shows "smart_peek_block mk now s =
           Inr (s\<lparr>is_smart_peek_done := is_smart_peek_done s \<or> smart_peek_due s\<rparr>)"
proof (cases "smart_peek_due s")
  case True
  with assms have v: "\<not> peek_verdict mk s" by (simp add: peek_cancels_def)
  from True have "\<not> length (payload_buffer s) < 129" by (simp add: smart_peek_due_def)
  with v True show ?thesis
    by (simp add: smart_peek_block_def PerformSmartPeek_def)
next
  case False
  then show ?thesis by (cases s) (simp add: smart_peek_block_def)
qed

lemma tail_no_cancel:
  assumes "\<not> peek_cancels mk s"
  shows "ProcessPacket_tail mk now s =
           Inr (completion_check now
                  (s\<lparr>is_smart_peek_done := is_smart_peek_done s \<or> smart_peek_due s\<rparr>))"
  by (simp add: ProcessPacket_tail_def block_no_cancel [OF assms])

lemma handler_first:
  assumes "received_packet_count s = 0" and "9 \<le> length p"
    and "0 \<le> sint (read_le32 p 5) *
               (max (if actual_packet_size s = 0 then int (length p) else actual_packet_size s) 64
                  - 5) + 2048"
  shows "OnValueChanged mk now p s = ProcessPacket_tail mk now (store_first now p s)"
proof (cases "actual_packet_size s = 0")
  case True
  with assms show ?thesis
    by (cases s) (simp add: OnValueChanged_def ProcessPacket_def store_first_def Let_def)
next
  case False
  with assms show ?thesis
    by (cases s) (simp add: OnValueChanged_def ProcessPacket_def store_first_def Let_def)
qed

lemma handler_next:
  assumes "received_packet_count s \<noteq> 0" and "0 < total_expected_packets s"
    and "5 \<le> length p"
  shows "OnValueChanged mk now p s = ProcessPacket_tail mk now (store_next now p s)"
  using assms
  by (cases s) (simp add: OnValueChanged_def ProcessPacket_def store_next_def Let_def)

lemma handler_short:
  assumes "0 < total_expected_packets s \<or> received_packet_count s = 0" and "length p < 5"
  shows "OnValueChanged mk now p s = Inr (s\<lparr>last_packet_time := now\<rparr>)"
  using assms by (simp add: OnValueChanged_def ProcessPacket_def Let_def)

lemma handler_short_first:
  assumes "received_packet_count s = 0" and "5 \<le> length p" and "length p < 9"
  shows "OnValueChanged mk now p s =
           Inr (s\<lparr>last_packet_time := now,
                  actual_packet_size :=
                    (if actual_packet_size s = 0 then int (length p) else actual_packet_size s)\<rparr>)"
  using assms by (cases s) (simp add: OnValueChanged_def ProcessPacket_def Let_def)

lemma handler_direct:
  assumes "\<not> 0 < total_expected_packets s" and "received_packet_count s \<noteq> 0"
  shows "OnValueChanged mk now p s = Inr (emit_payload now p (s\<lparr>last_packet_time := now\<rparr>))"
  using assms by (simp add: OnValueChanged_def Let_def)

lemma tail_cancel:
  assumes "peek_cancels mk s"
  shows "ProcessPacket_tail mk now s =
           (if watchdog_joinable s \<and> watchdog_stalled now s then Inl ResourceDeadlock
            else Inr (s\<lparr>watchdog_running := False, watchdog_joinable := False,
                  command_log := (if write_char_set s then command_log s @ [[0x08]] else command_log s),
                  received_packet_count := 0, total_expected_packets := 0,
                  actual_packet_size := 0, is_smart_peek_done := True, payload_buffer := [],
                  pending := pending s @ [(now + 600, SkipTask)]\<rparr>))"
proof -
  from assms have d: "smart_peek_due s" and v: "peek_verdict mk s"
    by (simp_all add: peek_cancels_def)
  from d have "\<not> length (payload_buffer s) < 129" by (simp add: smart_peek_due_def)
  with v have "PerformSmartPeek mk now s = CancelDownload NotifyThread now s"
    by (simp add: PerformSmartPeek_def)
  with d show ?thesis
    by (simp add: ProcessPacket_tail_def smart_peek_block_def completion_check_def
        CancelDownload_other)
qed

lemma due_fields:
  assumes "is_filtering a = is_filtering b" and "current_message_type a = current_message_type b"
    and "is_smart_peek_done a = is_smart_peek_done b" and "payload_buffer a = payload_buffer b"
  shows "smart_peek_due a = smart_peek_due b"
  using assms by (simp add: smart_peek_due_def)

lemma due_empty: "payload_buffer s = [] \<Longrightarrow> \<not> smart_peek_due s"
  by (simp add: smart_peek_due_def)

lemma tail_settled:
  assumes "ProcessPacket_tail mk now x = Inr s'"
  shows "\<not> smart_peek_due s'"
proof (cases "peek_cancels mk x")
  case True
  from assms tail_cancel [OF True, of now] show ?thesis
    by (auto simp add: smart_peek_due_def split: if_splits)
next
  case False
  from assms tail_no_cancel [OF False, of now] show ?thesis
    by (auto simp add: smart_peek_due_def completion_check_def split: if_splits)
qed

lemma handler_length_error:
  assumes "received_packet_count s = 0" and "9 \<le> length p"
    and "sint (read_le32 p 5) *
           (max (if actual_packet_size s = 0 then int (length p) else actual_packet_size s) 64
              - 5) + 2048 < 0"
  shows "OnValueChanged mk now p s = Inl LengthError"
proof (cases "actual_packet_size s = 0")
  case True
  with assms show ?thesis
    by (simp add: OnValueChanged_def ProcessPacket_def Let_def)
next
  case False
  with assms show ?thesis
    by (simp add: OnValueChanged_def ProcessPacket_def Let_def)
qed

lemma handler_settled:
  assumes "\<not> smart_peek_due s" and "OnValueChanged mk now p s = Inr s'"
  shows "\<not> smart_peek_due s'"
proof -
  consider
      (direct) "\<not> 0 < total_expected_packets s" "received_packet_count s \<noteq> 0"
    | (short) "0 < total_expected_packets s \<or> received_packet_count s = 0" "length p < 5"
    | (short_first) "received_packet_count s = 0" "5 \<le> length p" "length p < 9"
    | (first) "received_packet_count s = 0" "9 \<le> length p"
    | (later) "received_packet_count s \<noteq> 0" "0 < total_expected_packets s" "5 \<le> length p"
    by linarith
  then show ?thesis
  proof cases
    case direct
    then have "s' = emit_payload now p (s\<lparr>last_packet_time := now\<rparr>)"
      using assms(2) by (simp add: handler_direct)
    with assms(1) show ?thesis by (simp add: emit_payload_def smart_peek_due_def)
  next
    case short
    then have "s' = s\<lparr>last_packet_time := now\<rparr>"
      using assms(2) by (simp add: handler_short)
    with assms(1) show ?thesis by (simp add: smart_peek_due_def)
  next
    case short_first
    then have "s' = s\<lparr>last_packet_time := now,
                  actual_packet_size :=
                    (if actual_packet_size s = 0 then int (length p) else actual_packet_size s)\<rparr>"
      using assms(2) by (simp add: handler_short_first)
    with assms(1) show ?thesis by (simp add: smart_peek_due_def)
  next
    case first
    show ?thesis
    proof (cases "sint (read_le32 p 5) *
           (max (if actual_packet_size s = 0 then int (length p) else actual_packet_size s) 64
              - 5) + 2048 < 0")
      case True
      with first assms(2) show ?thesis by (simp add: handler_length_error)
    next
      case False
      then have "OnValueChanged mk now p s = ProcessPacket_tail mk now (store_first now p s)"
        using first by (intro handler_first) simp_all
      with assms(2) show ?thesis using tail_settled by metis
    qed
  next
    case later
    then have "OnValueChanged mk now p s = ProcessPacket_tail mk now (store_next now p s)"
      by (intro handler_next)
    with assms(2) show ?thesis using tail_settled by metis
  qed
qed

lemma FinishMessage_result:
  assumes "FinishMessage caller now s = Inr s'"
  shows "payload_buffer s' = []"
  using assms
  by (auto simp add: FinishMessage_def StopWatchdog_def emit_payload_def Let_def
      split: if_splits sum.splits)

lemma DownloadFile_result:
  assumes "DownloadFile now filename start fin s = Inr s'"
  shows "payload_buffer s' = []"
  using assms
  by (auto simp add: DownloadFile_def StopWatchdog_other StartWatchdog_def WriteCommand_def
      ResetDownloadState_def Let_def split: if_splits)

lemma fire_task_settled:
  assumes "\<not> smart_peek_due s" and "fire_task now i s = Some (Inr s')"
  shows "\<not> smart_peek_due s'"
proof -
  from assms(2) obtain task where
    r: "run_task now task (s\<lparr>pending := take i (pending s) @ drop (Suc i) (pending s)\<rparr>) = Inr s'"
    by (auto simp add: fire_task_def split: if_splits)
  let ?s = "s\<lparr>pending := take i (pending s) @ drop (Suc i) (pending s)\<rparr>"
  have d: "\<not> smart_peek_due ?s" using assms(1) by (simp add: smart_peek_due_def)
  show ?thesis
  proof (cases task)
    case ScanStopTask
    with r d show ?thesis
      by (auto simp add: StopScan_def smart_peek_due_def split: if_splits)
  next
    case FinishTask
    with r d show ?thesis
      by (auto simp add: due_empty dest: FinishMessage_result split: if_splits)
  next
    case SkipTask
    with r d show ?thesis
      by (auto simp add: emit_payload_def smart_peek_due_def split: if_splits)
  qed
qed

lemma exec_settled:
  assumes "\<not> smart_peek_due s" and "exec mk e s = Some (Inr s')"
  shows "\<not> smart_peek_due s'"
proof (cases e)
  case (CallSetCallbacks st sc pl)
  with assms show ?thesis by (auto simp add: SetCallbacks_def smart_peek_due_def)
next
  case (CallStartScan now)
  with assms show ?thesis
    by (auto simp add: StartScan_def emit_status_def Let_def smart_peek_due_def split: if_splits)
next
  case CallStopScan
  with assms show ?thesis by (auto simp add: StopScan_def smart_peek_due_def split: if_splits)
next
  case (CallConnect addr res)
  with assms show ?thesis
    by (cases res)
      (auto simp add: Connect_def StopScan_def emit_status_def PreventSleep_def WriteCommand_def
        Let_def smart_peek_due_def split: sum.splits if_splits)
next
  case (CallDisconnect now)
  with assms show ?thesis by (auto simp add: Disconnect_eq smart_peek_due_def split: if_splits)
next
  case (CallWriteCommand d)
  with assms show ?thesis by (auto simp add: WriteCommand_def smart_peek_due_def split: if_splits)
next
  case (CallDownloadFile now filename start fin)
  with assms show ?thesis by (auto simp add: due_empty dest: DownloadFile_result)
next
  case (CallCancelDownload now)
  with assms show ?thesis
    by (auto simp add: CancelDownload_other smart_peek_due_def split: if_splits)
next
  case (Advertisement localName addr rssi)
  with assms show ?thesis
    by (auto simp add: OnAdvertisementReceived_def smart_peek_due_def split: if_splits)
next
  case (Notify now d)
  with assms show ?thesis by (auto dest: handler_settled)
next
  case (Wake now i)
  with assms show ?thesis by (auto dest: fire_task_settled)
next
  case (Poll now)
  with assms show ?thesis
    by (auto simp add: watchdog_poll_def FinishMessage_watchdog Let_def split: if_splits)
next
  case (Destroy now)
  with assms show ?thesis
    by (auto simp add: destroy_def StopWatchdog_other Disconnect_eq AllowSleep_def
        smart_peek_due_def split: if_splits)
qed

lemma reachable_settled: "reachable mk s \<Longrightarrow> \<not> smart_peek_due s"
proof (induction rule: reachable.induct)
  case constructed
  show ?case by (simp add: due_empty PodBLECore_def)
next
  case (after_event s e s')
  then show ?case using exec_settled by blast
qed

lemma run_reachable:
  assumes "reachable mk s" and "run mk es s = Some (Inr s')"
  shows "reachable mk s'"
  using assms
proof (induction es arbitrary: s)
  case Nil
  then show ?case by simp
next
  case (Cons e es)
  from Cons.prems(2) obtain s1 where e: "exec mk e s = Some (Inr s1)"
    and r: "run mk es s1 = Some (Inr s')"
    by (auto split: option.splits sum.splits)
  from Cons.prems(1) e have "reachable mk s1" by (rule reachable.after_event)
  with r show ?case by (rule Cons.IH [rotated])
qed

text \<open>
  C5, as amended. In a reachable session with an open message (a positive expected
  count, a first fragment consumed), a fragment of at most 5 bytes appends nothing to
  the payload buffer; it increments the received count by one when it has exactly 5
  bytes, and leaves the count as it is when it has fewer.
\<close>

theorem short_fragment_appends_nothing:
  assumes "reachable mk s"
    and "0 < total_expected_packets s" and "received_packet_count s \<noteq> 0"
    and "length p \<le> 5"
  shows "map_sum id (\<lambda>s'. (received_packet_count s', payload_buffer s'))
           (OnValueChanged mk now p s)
         = Inr (if length p = 5 then received_packet_count s + 1 else received_packet_count s,
                payload_buffer s)"
proof (cases "length p = 5")
  case True
  have nd: "\<not> smart_peek_due s" using assms(1) by (rule reachable_settled)
  have st: "payload_buffer (store_next now p s) = payload_buffer s"
    using True by (simp add: store_next_def)
  have "smart_peek_due (store_next now p s) = smart_peek_due s"
    by (rule due_fields) (simp_all add: store_next_def True)
  with nd have "\<not> peek_cancels mk (store_next now p s)" by (simp add: peek_cancels_def)
  then have "ProcessPacket_tail mk now (store_next now p s) =
      Inr (completion_check now
             (store_next now p s\<lparr>is_smart_peek_done :=
                is_smart_peek_done (store_next now p s) \<or> smart_peek_due (store_next now p s)\<rparr>))"
    by (rule tail_no_cancel)
  moreover have "OnValueChanged mk now p s = ProcessPacket_tail mk now (store_next now p s)"
    using assms True by (intro handler_next) simp_all
  ultimately show ?thesis
    using True by (simp add: completion_check_def store_next_def)
next
  case False
  with assms have "length p < 5" by simp
  with assms have "OnValueChanged mk now p s = Inr (s\<lparr>last_packet_time := now\<rparr>)"
    by (intro handler_short) simp_all
  with False show ?thesis by simp
qed

text \<open>C5, an instance: a fragment of 5 bytes and one of 4 bytes after the opening one.\<close>

theorem short_fragment_appends_nothing_witness:
  "reachable mktime_utc open_session \<and>
   map_sum id (\<lambda>s'. (received_packet_count s', payload_buffer s'))
     (OnValueChanged mktime_utc 10 [1, 2, 3, 4, 5] open_session) = Inr (2, [0x01, 0x2A]) \<and>
   map_sum id (\<lambda>s'. (received_packet_count s', payload_buffer s'))
     (OnValueChanged mktime_utc 10 [1, 2, 3, 4] open_session) = Inr (1, [0x01, 0x2A])"
proof -
  have "run mktime_utc
          [CallSetCallbacks True True True, Notify 0 [0x01, 0, 0, 0, 0, 3, 0, 0, 0, 0x2A]]
          PodBLECore = Some (Inr open_session)"
    by code_simp
  with reachable.constructed have r: "reachable mktime_utc open_session"
    by (rule run_reachable)
  have f: "0 < total_expected_packets open_session" "received_packet_count open_session \<noteq> 0"
    "received_packet_count open_session = 1" "payload_buffer open_session = [0x01, 0x2A]"
    by (simp_all add: open_session_def PodBLECore_def)
  have "length [1, 2, 3, 4, 5 :: byte] \<le> 5" and "length [1, 2, 3, 4 :: byte] \<le> 5"
    by simp_all
  then show ?thesis
    using r short_fragment_appends_nothing [OF r f(1) f(2), of "[1, 2, 3, 4, 5]" 10]
      short_fragment_appends_nothing [OF r f(1) f(2), of "[1, 2, 3, 4]" 10]
    by (simp add: f)
qed

text \<open>
  C5 as stated fails: a fragment of 4 bytes that follows the first fragment of a message
  of three leaves the received count at 1.
\<close>

theorem four_byte_fragment_counterexample:
  "observe received_packet_count
     (run mktime_utc
        [CallSetCallbacks True True True,
         Notify 0 [0x01, 0, 0, 0, 0, 3, 0, 0, 0, 0x2A],
         Notify 10 [1, 2, 3, 4]]
        PodBLECore)
     = Some (Inr 1)"
  by code_simp

subsection \<open>Single-shot responses\<close>

lemma run_single_shot:
  assumes "\<not> 0 < total_expected_packets s" and "received_packet_count s \<noteq> 0"
    and "on_payload_set s"
  shows "observe (\<lambda>s'. (payload_log s', payload_buffer s'))
           (run mk (map (\<lambda>(t, d). Notify t d) later) s)
         = Some (Inr (payload_log s @ later, payload_buffer s))"
  using assms
proof (induction later arbitrary: s)
  case Nil
  show ?case by (simp add: observe_def)
next
  case (Cons td later)
  obtain t d where td: "td = (t, d)" by (cases td)
  let ?s1 = "emit_payload t d (s\<lparr>last_packet_time := t\<rparr>)"
  have h: "OnValueChanged mk t d s = Inr ?s1"
    using Cons.prems by (simp add: handler_direct)
  have "\<not> 0 < total_expected_packets ?s1" "received_packet_count ?s1 \<noteq> 0" "on_payload_set ?s1"
    using Cons.prems by (simp_all add: emit_payload_def)
  then have "observe (\<lambda>s'. (payload_log s', payload_buffer s'))
           (run mk (map (\<lambda>(t, d). Notify t d) later) ?s1)
         = Some (Inr (payload_log ?s1 @ later, payload_buffer ?s1))"
    by (rule Cons.IH)
  then show ?case
    using Cons.prems(3) by (simp add: td h emit_payload_def)
qed

text \<open>
  C4, as amended. When no message is open and a first fragment of at least 9 bytes
  announces the count 0, and Smart Peek does not cancel on it, that fragment itself is
  stored in the payload buffer and not delivered; every fragment after it, of any
  size, is handed to the payload callback as it arrives and the buffer stays as it is.
\<close>

theorem zero_count_fragment_is_buffered:
  assumes "received_packet_count s = 0"
    and "9 \<le> length f1" and "read_le32 f1 5 = 0"
    and "on_payload_set s"
    and "\<not> peek_cancels mk (store_first t1 f1 s)"
  shows "observe (\<lambda>s'. (payload_log s', payload_buffer s'))
           (run mk (Notify t1 f1 # map (\<lambda>(t, d). Notify t d) later) s)
         = Some (Inr (payload_log s @ later, f1 ! 0 # drop 9 f1))"
proof -
  let ?x = "store_first t1 f1 s"
  let ?s1 = "completion_check t1
               (?x\<lparr>is_smart_peek_done := is_smart_peek_done ?x \<or> smart_peek_due ?x\<rparr>)"
  have "OnValueChanged mk t1 f1 s = ProcessPacket_tail mk t1 ?x"
    using assms(1,2,3) by (intro handler_first) simp_all
  also have "\<dots> = Inr ?s1" using assms(5) by (rule tail_no_cancel)
  finally have h: "OnValueChanged mk t1 f1 s = Inr ?s1" .
  have f: "\<not> 0 < total_expected_packets ?s1" "received_packet_count ?s1 \<noteq> 0"
    "on_payload_set ?s1" "payload_log ?s1 = payload_log s"
    "payload_buffer ?s1 = f1 ! 0 # drop 9 f1"
    using assms(3,4) by (simp_all add: completion_check_def store_first_def)
  have "observe (\<lambda>s'. (payload_log s', payload_buffer s'))
           (run mk (map (\<lambda>(t, d). Notify t d) later) ?s1)
         = Some (Inr (payload_log ?s1 @ later, payload_buffer ?s1))"
    using f(1,2,3) by (rule run_single_shot)
  then show ?thesis
    by (simp add: h f(4,5))
qed

text \<open>
  C4 as stated fails: the fragment that announces the count 0 is buffered and nothing is
  delivered.
\<close>

theorem zero_count_fragment_counterexample:
  "observe (\<lambda>s'. (payload_log s', payload_buffer s'))
     (run mktime_utc
        [CallSetCallbacks True True True, Notify 0 [0x01, 0, 0, 0, 0, 0, 0, 0, 0, 0x2A]]
        PodBLECore)
     = Some (Inr ([], [0x01, 0x2A]))"
  by code_simp

text \<open>C4, an instance: two fragments after the one that announces the count 0.\<close>

theorem zero_count_fragment_is_buffered_witness:
  "observe (\<lambda>s'. (payload_log s', payload_buffer s'))
     (run mktime_utc
        [Notify 0 [0x01, 0, 0, 0, 0, 0, 0, 0, 0, 0x2A], Notify 5 [0x07], Notify 9 [0x08, 0x09]]
        (SetCallbacks True True True PodBLECore))
     = Some (Inr ([(5, [0x07]), (9, [0x08, 0x09])], [0x01, 0x2A]))"
proof -
  let ?s = "SetCallbacks True True True PodBLECore"
  let ?f = "[0x01, 0, 0, 0, 0, 0, 0, 0, 0, 0x2A] :: byte list"
  have a: "received_packet_count ?s = 0" by (simp add: SetCallbacks_def PodBLECore_def)
  have b: "9 \<le> length ?f" by simp
  have c: "read_le32 ?f 5 = 0" by (simp add: read_le32_def)
  have d: "on_payload_set ?s" by (simp add: SetCallbacks_def)
  have e: "\<not> peek_cancels mktime_utc (store_first 0 ?f ?s)"
    by (simp add: peek_cancels_def smart_peek_due_def store_first_def SetCallbacks_def
        PodBLECore_def)
  have l: "payload_log ?s = []" by (simp add: SetCallbacks_def PodBLECore_def)
  show ?thesis
    using zero_count_fragment_is_buffered [OF a b c d e, of "[(5, [0x07]), (9, [0x08, 0x09])]"]
    by (simp add: l)
qed

subsection \<open>A message of three fragments\<close>

lemma verdict_fields:
  assumes "filter_start a = filter_start b" and "filter_end a = filter_end b"
    and "actual_packet_size a = actual_packet_size b"
    and "total_expected_packets a = total_expected_packets b"
    and "take 69 (payload_buffer a) = take 69 (payload_buffer b)"
  shows "peek_verdict mk a = peek_verdict mk b"
proof -
  have n: "\<And>i. i < 69 \<Longrightarrow> payload_buffer a ! i = payload_buffer b ! i"
  proof -
    fix i :: nat assume "i < 69"
    then have "payload_buffer a ! i = take 69 (payload_buffer a) ! i"
      and "payload_buffer b ! i = take 69 (payload_buffer b) ! i"
      by simp_all
    with assms(5) show "payload_buffer a ! i = payload_buffer b ! i" by simp
  qed
  have "peek_start_ms mk a = peek_start_ms mk b"
    by (simp add: peek_start_ms_def Let_def n)
  moreover have "peek_duration a = peek_duration b"
    by (simp add: peek_duration_def read_le32_def Let_def n assms(3,4))
  ultimately show ?thesis
    by (simp add: peek_verdict_def Let_def assms(1,2))
qed

lemma no_cancel_prefix:
  assumes "\<not> peek_cancels mk full"
    and "is_filtering x = is_filtering full"
    and "current_message_type x = current_message_type full"
    and "is_smart_peek_done full \<longrightarrow> is_smart_peek_done x"
    and "filter_start x = filter_start full" and "filter_end x = filter_end full"
    and "actual_packet_size x = actual_packet_size full"
    and "total_expected_packets x = total_expected_packets full"
    and "payload_buffer full = payload_buffer x @ rest"
  shows "\<not> peek_cancels mk x"
proof
  assume c: "peek_cancels mk x"
  then have d: "smart_peek_due x" and v: "peek_verdict mk x"
    by (simp_all add: peek_cancels_def)
  from d have l: "129 \<le> length (payload_buffer x)" by (simp add: smart_peek_due_def)
  from d assms(2,3,4,9) have "smart_peek_due full"
    by (auto simp add: smart_peek_due_def)
  moreover have "take 69 (payload_buffer x) = take 69 (payload_buffer full)"
    using l by (simp add: assms(9))
  then have "peek_verdict mk x = peek_verdict mk full"
    by (intro verdict_fields) (simp_all add: assms)
  ultimately have "peek_cancels mk full" using v by (simp add: peek_cancels_def)
  with assms(1) show False by simp
qed

lemma FinishMessage_timer:
  "FinishMessage TimerThread now s =
     (if watchdog_joinable s \<and> watchdog_stalled now s then Inl ResourceDeadlock
      else Inr (s\<lparr>watchdog_running := False, watchdog_joinable := False,
            payload_log := (if on_payload_set s then payload_log s @ [(now, payload_buffer s)]
                            else payload_log s),
            received_packet_count := 0, total_expected_packets := 0, payload_buffer := []\<rparr>))"
proof (cases "watchdog_joinable s \<and> watchdog_stalled now s")
  case True
  then show ?thesis by (simp add: FinishMessage_def StopWatchdog_other)
next
  case False
  then have "StopWatchdog TimerThread now s =
      Inr (s\<lparr>watchdog_running := False, watchdog_joinable := False\<rparr>)"
    by (simp add: StopWatchdog_other)
  then show ?thesis
    using False by (cases s) (simp add: FinishMessage_def emit_payload_def Let_def)
qed

text \<open>
  C1, as amended. No message is open, the session is alive and has a payload callback.
  A first fragment of at least 9 bytes announces three fragments, two fragments of more
  than 5 bytes follow, and Smart Peek does not cancel: run on the message, it would not
  decide to. Then the thread started by the third fragment, which cannot run before
  50 ms have passed, hands the payload callback the type byte, the first fragment from
  offset 9, the second and the third from offset 5, once, and nothing of the message
  stays pending. The one exception is a thread that runs more than 2.5 s after the third
  fragment while a watchdog thread exists: the watchdog's last round, which the thread
  waits for, then finds the complete message stalled and ends the process.
\<close>

theorem three_fragments_delivered_once:
  assumes idle: "received_packet_count s = 0"
    and live: "alive s" "on_payload_set s"
    and first: "9 \<le> length f1" "read_le32 f1 5 = 3"
    and later: "5 < length f2" "5 < length f3"
    and peek: "\<not> peek_cancels mk
        (s\<lparr>actual_packet_size :=
             (if actual_packet_size s = 0 then int (length f1) else actual_packet_size s),
           current_message_type := f1 ! 0, total_expected_packets := 3,
           payload_buffer := f1 ! 0 # drop 9 f1 @ drop 5 f2 @ drop 5 f3\<rparr>)"
  shows "observe (\<lambda>s'. (payload_log s', pending s'))
           (run mk [Notify t1 f1, Notify t2 f2, Notify t3 f3, Wake now (length (pending s))] s)
         = (if t3 + 50 \<le> now
            then (if watchdog_joinable s \<and> t3 + 2500 < now then Some (Inl ResourceDeadlock)
                  else Some (Inr (payload_log s @
                                    [(now, f1 ! 0 # drop 9 f1 @ drop 5 f2 @ drop 5 f3)],
                                  pending s)))
            else None)"
proof -
  define aps where
    "aps = (if actual_packet_size s = 0 then int (length f1) else actual_packet_size s)"
  define full where
    "full = s\<lparr>actual_packet_size := aps, current_message_type := f1 ! 0,
              total_expected_packets := 3,
              payload_buffer := f1 ! 0 # drop 9 f1 @ drop 5 f2 @ drop 5 f3\<rparr>"
  have pk: "\<not> peek_cancels mk full" using peek by (simp add: full_def aps_def)
  have aps0: "aps \<noteq> 0" using first(1) by (auto simp add: aps_def)
  have three: "sint (read_le32 f1 5) = 3" by (simp add: first(2))

  \<comment> \<open>first fragment\<close>
  define x1 where "x1 = store_first t1 f1 s"
  define s1 where "s1 = x1\<lparr>is_smart_peek_done := is_smart_peek_done x1 \<or> smart_peek_due x1\<rparr>"
  have x1: "is_filtering x1 = is_filtering s" "current_message_type x1 = f1 ! 0"
    "is_smart_peek_done x1 = is_smart_peek_done s" "filter_start x1 = filter_start s"
    "filter_end x1 = filter_end s" "actual_packet_size x1 = aps" "total_expected_packets x1 = 3"
    "payload_buffer x1 = f1 ! 0 # drop 9 f1" "received_packet_count x1 = 1"
    "pending x1 = pending s" "payload_log x1 = payload_log s" "alive x1" "on_payload_set x1"
    using live by (simp_all add: x1_def store_first_def aps_def three)
  have n1: "\<not> peek_cancels mk x1"
    by (rule no_cancel_prefix [OF pk, where rest = "drop 5 f2 @ drop 5 f3"])
       (simp_all add: x1 full_def)
  have "OnValueChanged mk t1 f1 s = ProcessPacket_tail mk t1 (store_first t1 f1 s)"
    using idle first(1) by (intro handler_first) (simp_all add: three)
  also have "\<dots> = Inr (completion_check t1 s1)"
    unfolding s1_def x1_def [symmetric] using n1 by (rule tail_no_cancel)
  also have "completion_check t1 s1 = s1"
    by (simp add: completion_check_def s1_def x1)
  finally have r1: "OnValueChanged mk t1 f1 s = Inr s1" .
  have s1: "is_filtering s1 = is_filtering s" "current_message_type s1 = f1 ! 0"
    "is_smart_peek_done s \<longrightarrow> is_smart_peek_done s1" "filter_start s1 = filter_start s"
    "filter_end s1 = filter_end s" "actual_packet_size s1 = aps" "total_expected_packets s1 = 3"
    "payload_buffer s1 = f1 ! 0 # drop 9 f1" "received_packet_count s1 = 1"
    "pending s1 = pending s" "payload_log s1 = payload_log s" "alive s1" "on_payload_set s1"
    by (simp_all add: s1_def x1)

  \<comment> \<open>second fragment\<close>
  define x2 where "x2 = store_next t2 f2 s1"
  define s2 where "s2 = x2\<lparr>is_smart_peek_done := is_smart_peek_done x2 \<or> smart_peek_due x2\<rparr>"
  have x2: "is_filtering x2 = is_filtering s" "current_message_type x2 = f1 ! 0"
    "is_smart_peek_done s \<longrightarrow> is_smart_peek_done x2" "filter_start x2 = filter_start s"
    "filter_end x2 = filter_end s" "actual_packet_size x2 = aps" "total_expected_packets x2 = 3"
    "payload_buffer x2 = f1 ! 0 # drop 9 f1 @ drop 5 f2" "received_packet_count x2 = 2"
    "pending x2 = pending s" "payload_log x2 = payload_log s" "alive x2" "on_payload_set x2"
    using aps0 by (simp_all add: x2_def store_next_def s1)
  have n2: "\<not> peek_cancels mk x2"
    by (rule no_cancel_prefix [OF pk, where rest = "drop 5 f3"])
       (simp_all add: x2 full_def)
  have "OnValueChanged mk t2 f2 s1 = ProcessPacket_tail mk t2 (store_next t2 f2 s1)"
    using later(1) by (intro handler_next) (simp_all add: s1)
  also have "\<dots> = Inr (completion_check t2 s2)"
    unfolding s2_def x2_def [symmetric] using n2 by (rule tail_no_cancel)
  also have "completion_check t2 s2 = s2"
    by (simp add: completion_check_def s2_def x2)
  finally have r2: "OnValueChanged mk t2 f2 s1 = Inr s2" .
  have s2: "is_filtering s2 = is_filtering s" "current_message_type s2 = f1 ! 0"
    "is_smart_peek_done s \<longrightarrow> is_smart_peek_done s2" "filter_start s2 = filter_start s"
    "filter_end s2 = filter_end s" "actual_packet_size s2 = aps" "total_expected_packets s2 = 3"
    "payload_buffer s2 = f1 ! 0 # drop 9 f1 @ drop 5 f2" "received_packet_count s2 = 2"
    "pending s2 = pending s" "payload_log s2 = payload_log s" "alive s2" "on_payload_set s2"
    using x2(3) by (simp_all add: s2_def x2)

  \<comment> \<open>third fragment\<close>
  define x3 where "x3 = store_next t3 f3 s2"
  define s3 where "s3 = x3\<lparr>is_smart_peek_done := is_smart_peek_done x3 \<or> smart_peek_due x3\<rparr>"
  have x3: "is_filtering x3 = is_filtering s" "current_message_type x3 = f1 ! 0"
    "is_smart_peek_done s \<longrightarrow> is_smart_peek_done x3" "filter_start x3 = filter_start s"
    "filter_end x3 = filter_end s" "actual_packet_size x3 = aps" "total_expected_packets x3 = 3"
    "payload_buffer x3 = f1 ! 0 # drop 9 f1 @ drop 5 f2 @ drop 5 f3"
    "received_packet_count x3 = 3"
    "pending x3 = pending s" "payload_log x3 = payload_log s" "alive x3" "on_payload_set x3"
    using aps0 by (simp_all add: x3_def store_next_def s2)
  have n3: "\<not> peek_cancels mk x3"
    by (rule no_cancel_prefix [OF pk, where rest = "[]"])
       (simp_all add: x3 full_def)
  have "OnValueChanged mk t3 f3 s2 = ProcessPacket_tail mk t3 (store_next t3 f3 s2)"
    using later(2) by (intro handler_next) (simp_all add: s2)
  also have "\<dots> = Inr (completion_check t3 s3)"
    unfolding s3_def x3_def [symmetric] using n3 by (rule tail_no_cancel)
  also have "completion_check t3 s3 = s3\<lparr>pending := pending s @ [(t3 + 50, FinishTask)]\<rparr>"
    by (simp add: completion_check_def s3_def x3)
  finally have r3: "OnValueChanged mk t3 f3 s2
      = Inr (s3\<lparr>pending := pending s @ [(t3 + 50, FinishTask)]\<rparr>)" .
  have s3: "payload_buffer s3 = f1 ! 0 # drop 9 f1 @ drop 5 f2 @ drop 5 f3"
    "payload_log s3 = payload_log s" "alive s3" "on_payload_set s3"
    by (simp_all add: s3_def x3)
  have j3: "watchdog_joinable s3 = watchdog_joinable s"
    by (simp add: s3_def x3_def s2_def x2_def s1_def x1_def store_next_def store_first_def)
  have "last_packet_time s3 = t3" "total_expected_packets s3 = 3" "received_packet_count s3 = 3"
    by (simp_all add: s3_def x3 x3_def store_next_def s2)
  then have w3: "watchdog_stalled now s3 = (t3 + 2500 < now)"
    by (auto simp add: watchdog_stalled_def Let_def)

  \<comment> \<open>the detached thread\<close>
  let ?s3 = "s3\<lparr>pending := pending s @ [(t3 + 50, FinishTask)]\<rparr>"
  have p: "pending ?s3 = pending s @ [(t3 + 50, FinishTask)]" by simp
  have f: "fire_task now (length (pending s)) ?s3 =
      (if t3 + 50 \<le> now then Some (run_task now FinishTask (?s3\<lparr>pending := pending s\<rparr>))
       else None)"
    by (rule fire_task_appended [OF p])
  have w3': "watchdog_stalled now (s3\<lparr>pending := pending s\<rparr>) = (t3 + 2500 < now)"
    using w3 stalled_fields [of "s3\<lparr>pending := pending s\<rparr>" s3 now] by simp
  show ?thesis
    by (simp add: observe_def r1 r2 r3 f FinishMessage_timer s3 j3 w3')
qed

text \<open>
  C1, an instance: the recording of the examples under a filter whose end lies after
  the recording, so that Smart Peek runs and does not cancel.
\<close>

theorem three_fragments_delivered_once_witness:
  "observe (\<lambda>s'. (payload_log s', pending s'))
     (run mktime_utc
        [Notify 10 recording_first, Notify 20 recording_second, Notify 30 recording_third,
         Wake 80 0]
        (SetCallbacks True True True PodBLECore\<lparr>filter_end := 2000000000000, is_filtering := True\<rparr>))
     = Some (Inr ([(80, 0x03 # recording_payload @ [0xAA, 0xBB])], []))"
proof -
  let ?s = "SetCallbacks True True True PodBLECore\<lparr>filter_end := 2000000000000, is_filtering := True\<rparr>"
  have a: "received_packet_count ?s = 0" and b: "alive ?s" and c: "on_payload_set ?s"
    by (simp_all add: SetCallbacks_def PodBLECore_def)
  have d: "9 \<le> length recording_first" by (simp add: recording_first_def)
  have e: "read_le32 recording_first 5 = 3" by code_simp
  have f: "5 < length recording_second" "5 < length recording_third"
    by (simp_all add: recording_second_def recording_third_def)
  have g: "\<not> peek_cancels mktime_utc
        (?s\<lparr>actual_packet_size :=
             (if actual_packet_size ?s = 0 then int (length recording_first)
              else actual_packet_size ?s),
           current_message_type := recording_first ! 0, total_expected_packets := 3,
           payload_buffer := recording_first ! 0 # drop 9 recording_first @
             drop 5 recording_second @ drop 5 recording_third\<rparr>)"
    by code_simp
  have h: "payload_log ?s = []" "pending ?s = []"
    by (simp_all add: SetCallbacks_def PodBLECore_def)
  have m: "recording_first ! 0 # drop 9 recording_first @ drop 5 recording_second @
      drop 5 recording_third = 0x03 # recording_payload @ [0xAA, 0xBB]"
    by (simp add: recording_first_def recording_second_def recording_third_def)
  have j: "\<not> watchdog_joinable ?s" by (simp add: SetCallbacks_def PodBLECore_def)
  show ?thesis
    using three_fragments_delivered_once [OF a b c d e f g, of 10 20 30 80]
    by (simp only: h m j) simp
qed

text \<open>
  C1 as stated fails: under a filter that ends at 1000 ms, Smart Peek cancels on the
  first fragment of the recording; the two later fragments are dropped, and the only
  payload ever delivered is the skip marker.
\<close>

theorem three_fragments_cancelled_counterexample:
  "observe (\<lambda>s'. (payload_log s', pending s'))
     (run mktime_utc
        [CallSetCallbacks True True True, CallDownloadFile 0 ''LOG'' 0 1000,
         Notify 10 recording_first, Notify 20 recording_second, Notify 30 recording_third,
         Wake 700 0]
        PodBLECore)
     = Some (Inr ([(700, [0xDA])], []))"
  by code_simp

subsection \<open>The Smart Peek rule\<close>

















end
